theory Spec2Isabelle
  imports Main "HOL-Library.Sublist"
begin

section \<open>The Python runtime used by the markup compiler\<close>

text \<open>
  The compiler lives in \<^verbatim>\<open>src/src/d/drafts.py\<close> (\<^verbatim>\<open>parse_markup_to_json\<close>,
  \<^verbatim>\<open>parse_inline_formatting\<close>) and, a second time, in
  \<^verbatim>\<open>src/examples/python/draft_create.py\<close>. It is pure string processing on top of
  Python's \<^verbatim>\<open>str\<close> methods, the \<^verbatim>\<open>re\<close> module and \<^verbatim>\<open>int\<close>. This section
  models that part of the runtime; the sections after it translate the two functions,
  first from \<^verbatim>\<open>drafts.py\<close>, whose line numbers are the ones given, then from the second file.

  A Python \<^verbatim>\<open>str\<close> is a sequence of Unicode code points, so it is a list of naturals
  here. A literal of the source is written \<open>u ''...''\<close> (all literals of the compiler
  are ASCII but the bullet U+2022, which is written as the number 8226).
\<close>

type_synonym pystr = "nat list"

definition u :: "string \<Rightarrow> pystr" where
  "u s = map of_char s"

subsection \<open>Character classes\<close>

text \<open>
  \<^verbatim>\<open>str.isspace\<close> on one character, which is also what \<^verbatim>\<open>str.strip()\<close> removes and
  what \<^verbatim>\<open>\s\<close> matches in a \<^verbatim>\<open>str\<close> pattern: U+0009..U+000D, U+001C..U+0020, U+0085,
  U+00A0, U+1680, U+2000..U+200A, U+2028, U+2029, U+202F, U+205F, U+3000.
\<close>

definition isspace :: "nat \<Rightarrow> bool" where
  "isspace c \<longleftrightarrow>
     (9 \<le> c \<and> c \<le> 13) \<or> (28 \<le> c \<and> c \<le> 32) \<or> c = 133 \<or> c = 160 \<or> c = 5760 \<or>
     (8192 \<le> c \<and> c \<le> 8202) \<or> c = 8232 \<or> c = 8233 \<or> c = 8239 \<or> c = 8287 \<or> c = 12288"

text \<open>
  \<^verbatim>\<open>str.isdecimal\<close> on one character (Unicode category Nd), which is what \<^verbatim>\<open>\d\<close>
  matches in a \<^verbatim>\<open>str\<close> pattern and what \<^verbatim>\<open>int\<close> accepts as a digit. The table is the
  one of Unicode 14.0 (CPython 3.11): 61 blocks of ten digits, each starting at the
  digit zero, and the fifty mathematical digits U+1D7CE..U+1D7FF (five runs of ten).
\<close>

definition decimal_blocks :: "nat list" where
  "decimal_blocks =
    [48, 1632, 1776, 1984, 2406, 2534, 2662, 2790, 2918, 3046, 3174, 3302, 3430, 3558,
     3664, 3792, 3872, 4160, 4240, 6112, 6160, 6470, 6608, 6784, 6800, 6992, 7088, 7232,
     7248, 42528, 43216, 43264, 43472, 43504, 43600, 44016, 65296, 66720, 68912, 69734,
     69872, 69942, 70096, 70384, 70736, 70864, 71248, 71360, 71472, 71904, 72016, 72784,
     73040, 73120, 92768, 92864, 93008,
     120782, 120792, 120802, 120812, 120822,
     123200, 123632, 125264, 130032]"

definition isdecimal :: "nat \<Rightarrow> bool" where
  "isdecimal c \<longleftrightarrow> list_ex (\<lambda>z. z \<le> c \<and> c < z + 10) decimal_blocks"

fun block_value :: "nat list \<Rightarrow> nat \<Rightarrow> nat" where
  "block_value [] c = 0"
| "block_value (z # zs) c = (if z \<le> c \<and> c < z + 10 then c - z else block_value zs c)"

definition decimal_value :: "nat \<Rightarrow> nat" where
  "decimal_value c = block_value decimal_blocks c"

subsection \<open>String methods\<close>

text \<open>\<^verbatim>\<open>s.strip()\<close>: white space removed at both ends.\<close>

definition str_strip :: "pystr \<Rightarrow> pystr" where
  "str_strip s = rev (dropWhile isspace (rev (dropWhile isspace s)))"

text \<open>
  \<^verbatim>\<open>s.lower()\<close>. The characters whose lower-case form is made of ASCII characters are
  \<^verbatim>\<open>A\<close>..\<^verbatim>\<open>Z\<close> and the Kelvin sign U+212A (lower case \<^verbatim>\<open>k\<close>); they are mapped as
  Python maps them. Every other cased character is outside ASCII and so is its lower-case
  form; the compiler only compares a lowered string with ASCII literals, so such a
  character is left as it is.
\<close>

definition lower_char :: "nat \<Rightarrow> nat" where
  "lower_char c = (if 65 \<le> c \<and> c \<le> 90 then c + 32 else if c = 8490 then 107 else c)"

definition str_lower :: "pystr \<Rightarrow> pystr" where
  "str_lower s = map lower_char s"

text \<open>\<^verbatim>\<open>s.replace(old, new)\<close> for one-character \<^verbatim>\<open>old\<close> and \<^verbatim>\<open>new\<close>.\<close>

definition str_replace :: "nat \<Rightarrow> nat \<Rightarrow> pystr \<Rightarrow> pystr" where
  "str_replace old new s = map (\<lambda>c. if c = old then new else c) s"

text \<open>
  \<open>partition_at sep s\<close> cuts \<open>s\<close> at the first (leftmost) occurrence of \<open>sep\<close>: the
  text before it and the text after it, or \<open>None\<close> when \<open>sep\<close> does not occur.
  \<^verbatim>\<open>sep in s\<close>, \<^verbatim>\<open>s.split(sep, 1)\<close> and \<^verbatim>\<open>s.split(sep)\<close> are built on it. Python
  raises \<^verbatim>\<open>ValueError\<close> for an empty separator; every separator of the compiler is a
  non-empty literal, and \<open>str_split\<close> returns \<open>[s]\<close> for the empty one.
\<close>

fun partition_at :: "pystr \<Rightarrow> pystr \<Rightarrow> (pystr \<times> pystr) option" where
  "partition_at sep [] = (if sep = [] then Some ([], []) else None)"
| "partition_at sep (x # xs) =
     (if prefix sep (x # xs) then Some ([], drop (length sep) (x # xs))
      else map_option (\<lambda>(a, b). (x # a, b)) (partition_at sep xs))"

definition str_contains :: "pystr \<Rightarrow> pystr \<Rightarrow> bool" where
  "str_contains sub s \<longleftrightarrow> partition_at sub s \<noteq> None"

definition str_split1 :: "pystr \<Rightarrow> pystr \<Rightarrow> pystr list" where
  "str_split1 sep s = (case partition_at sep s of None \<Rightarrow> [s] | Some (a, b) \<Rightarrow> [a, b])"

lemma partition_at_shorter:
  "partition_at sep s = Some (a, b) \<Longrightarrow> sep \<noteq> [] \<Longrightarrow> length b < length s"
proof (induction s arbitrary: a)
  case Nil
  then show ?case by simp
next
  case (Cons x xs)
  show ?case
  proof (cases "prefix sep (x # xs)")
    case True
    with Cons.prems show ?thesis by (cases sep) auto
  next
    case False
    with Cons.prems obtain a' where "partition_at sep xs = Some (a', b)"
      by (auto split: option.splits)
    with Cons.IH Cons.prems(2) show ?thesis by fastforce
  qed
qed

function str_split :: "pystr \<Rightarrow> pystr \<Rightarrow> pystr list" where
  "str_split sep s =
     (if sep = [] then [s]
      else case partition_at sep s of None \<Rightarrow> [s] | Some (a, b) \<Rightarrow> a # str_split sep b)"
  by pat_completeness auto
termination
  by (relation "measure (\<lambda>(sep, s). length s)") (auto dest: partition_at_shorter)

declare str_split.simps [simp del]

text \<open>The slices \<^verbatim>\<open>s[i:j]\<close> and \<^verbatim>\<open>s[i:]\<close> for indices that are not negative.\<close>

definition py_slice :: "'a list \<Rightarrow> nat \<Rightarrow> nat \<Rightarrow> 'a list" where
  "py_slice s i j = drop i (take j s)"

subsection \<open>Exceptions, \<^verbatim>\<open>int\<close> and \<^verbatim>\<open>str\<close> of an integer\<close>

datatype error = ValueError | IndexError

text \<open>
  \<^verbatim>\<open>int(s)\<close> for a string of decimal digits. CPython refuses a string with more than
  \<^verbatim>\<open>sys.int_info.default_max_str_digits\<close> = 4300 digits with \<^verbatim>\<open>ValueError\<close>, leading
  zeros counted (the library reference, Built-in Types, Integer string conversion length
  limitation; in CPython since 3.11 and in the releases 3.10.7, 3.9.14, 3.8.14 and 3.7.14).
  A string that is empty or has a character that is not a decimal digit is
  \<^verbatim>\<open>ValueError\<close> here; Python also accepts a sign, underscores and surrounding white space,
  which the compiler never passes: its two arguments of \<^verbatim>\<open>int\<close> are the digit of a tag
  \<^verbatim>\<open>h1\<close>..\<^verbatim>\<open>h6\<close> and a match of \<^verbatim>\<open>\d+\<close>.
\<close>

definition int_max_str_digits :: nat where
  "int_max_str_digits = 4300"

definition digits_value :: "pystr \<Rightarrow> nat" where
  "digits_value s = foldl (\<lambda>acc c. 10 * acc + decimal_value c) 0 s"

definition py_int :: "pystr \<Rightarrow> error + int" where
  "py_int s =
     (if s \<noteq> [] \<and> list_all isdecimal s then
        (if int_max_str_digits < length s then Inl ValueError
         else Inr (int (digits_value s)))
      else Inl ValueError)"

text \<open>
  \<^verbatim>\<open>str(n)\<close>, as the f-string \<^verbatim>\<open>f"EQUATION_{footnote_counter}"\<close> formats the counter.
\<close>

fun digits_of_nat :: "nat \<Rightarrow> pystr" where
  "digits_of_nat n = (if n < 10 then [48 + n] else digits_of_nat (n div 10) @ [48 + n mod 10])"

declare digits_of_nat.simps [simp del]

definition py_str :: "int \<Rightarrow> pystr" where
  "py_str i = (if i < 0 then 45 # digits_of_nat (nat (- i)) else digits_of_nat (nat i))"

text \<open>\<^verbatim>\<open>s[i]\<close> for an index that is not negative, and \<^verbatim>\<open>a, b = xs\<close>.\<close>

definition py_index :: "'a list \<Rightarrow> nat \<Rightarrow> error + 'a" where
  "py_index s i = (if i < length s then Inr (s ! i) else Inl IndexError)"

fun unpack2 :: "'a list \<Rightarrow> error + ('a \<times> 'a)" where
  "unpack2 [a, b] = Inr (a, b)"
| "unpack2 _ = Inl ValueError"

subsection \<open>Regular expressions\<close>

text \<open>
  The patterns of the compiler use literal characters, four character classes
  (\<^verbatim>\<open>.\<close>, which is every character but the newline, \<^verbatim>\<open>[^c]\<close>, \<^verbatim>\<open>\d\<close> and
  \<^verbatim>\<open>\s\<close>) and three repetitions of a class (\<^verbatim>\<open>*?\<close>, \<^verbatim>\<open>*\<close> and \<^verbatim>\<open>+\<close>),
  with or without a capturing group around the repetition. A pattern is the list of
  its items.
\<close>

datatype cclass = Dot | NoneOf nat | Decimal | Whitespace

fun in_class :: "cclass \<Rightarrow> nat \<Rightarrow> bool" where
  "in_class Dot c = (c \<noteq> 10)"
| "in_class (NoneOf d) c = (c \<noteq> d)"
| "in_class Decimal c = isdecimal c"
| "in_class Whitespace c = isspace c"

datatype quant = LazyStar | Star | Plus

datatype atom = Lit nat | Rep quant cclass | Group quant cclass

definition lit :: "string \<Rightarrow> atom list" where
  "lit s = map (\<lambda>c. Lit (of_char c)) s"

text \<open>
  The matcher is the backtracking matcher of \<^verbatim>\<open>re\<close>: a repetition is followed by the
  rest of the pattern, \<open>k\<close>, and the first way of matching both that succeeds is taken.
  The lazy star tries the rest of the pattern before it takes one more character; the
  greedy star takes one more character first and gives it back when the rest of the
  pattern fails after it. Each returns the characters the repetition has taken.
\<close>

fun lazy_star :: "(nat \<Rightarrow> bool) \<Rightarrow> (pystr \<Rightarrow> 'r option) \<Rightarrow> pystr \<Rightarrow> (pystr \<times> 'r) option" where
  "lazy_star cl k [] = map_option (Pair []) (k [])"
| "lazy_star cl k (x # xs) =
     (case k (x # xs) of
        Some r \<Rightarrow> Some ([], r)
      | None \<Rightarrow> if cl x then map_option (\<lambda>(g, r). (x # g, r)) (lazy_star cl k xs) else None)"

fun greedy_star :: "(nat \<Rightarrow> bool) \<Rightarrow> (pystr \<Rightarrow> 'r option) \<Rightarrow> pystr \<Rightarrow> (pystr \<times> 'r) option" where
  "greedy_star cl k [] = map_option (Pair []) (k [])"
| "greedy_star cl k (x # xs) =
     (if cl x then
        (case greedy_star cl k xs of
           Some (g, r) \<Rightarrow> Some (x # g, r)
         | None \<Rightarrow> map_option (Pair []) (k (x # xs)))
      else map_option (Pair []) (k (x # xs)))"

fun greedy_plus :: "(nat \<Rightarrow> bool) \<Rightarrow> (pystr \<Rightarrow> 'r option) \<Rightarrow> pystr \<Rightarrow> (pystr \<times> 'r) option" where
  "greedy_plus cl k [] = None"
| "greedy_plus cl k (x # xs) =
     (if cl x then map_option (\<lambda>(g, r). (x # g, r)) (greedy_star cl k xs) else None)"

fun repeat :: "quant \<Rightarrow> (nat \<Rightarrow> bool) \<Rightarrow> (pystr \<Rightarrow> 'r option) \<Rightarrow> pystr \<Rightarrow> (pystr \<times> 'r) option" where
  "repeat LazyStar = lazy_star"
| "repeat Star = greedy_star"
| "repeat Plus = greedy_plus"

text \<open>
  \<open>rmatch p s\<close> matches the pattern \<open>p\<close> at the start of \<open>s\<close>: the number of
  characters of the match and the texts of its groups, in order.
\<close>

fun rmatch :: "atom list \<Rightarrow> pystr \<Rightarrow> (nat \<times> pystr list) option" where
  "rmatch [] s = Some (0, [])"
| "rmatch (Lit c # p) [] = None"
| "rmatch (Lit c # p) (x # xs) =
     (if x = c then map_option (\<lambda>(n, gs). (Suc n, gs)) (rmatch p xs) else None)"
| "rmatch (Rep q cl # p) s =
     map_option (\<lambda>(g, n, gs). (length g + n, gs)) (repeat q (in_class cl) (rmatch p) s)"
| "rmatch (Group q cl # p) s =
     map_option (\<lambda>(g, n, gs). (length g + n, g # gs)) (repeat q (in_class cl) (rmatch p) s)"

text \<open>
  A match object: \<^verbatim>\<open>start()\<close>, \<^verbatim>\<open>end()\<close> and the groups. \<^verbatim>\<open>m.group(i)\<close> raises
  \<^verbatim>\<open>IndexError\<close> for a group the pattern does not have.
\<close>

type_synonym rematch = "nat \<times> nat \<times> pystr list"

definition group :: "pystr list \<Rightarrow> nat \<Rightarrow> error + pystr" where
  "group gs i = (if 1 \<le> i \<and> i \<le> length gs then Inr (gs ! (i - 1)) else Inl IndexError)"

text \<open>
  \<^verbatim>\<open>re.finditer(p, s)\<close>: the matches from left to right, each search starting where
  the match before it ended. \<open>pos\<close> is the position of \<open>s\<close> in the whole text. No
  pattern of the compiler matches the empty string; after an empty match the search
  moves on by one character.
\<close>

function finditer :: "atom list \<Rightarrow> nat \<Rightarrow> pystr \<Rightarrow> rematch list" where
  "finditer p pos [] =
     (case rmatch p [] of None \<Rightarrow> [] | Some (n, gs) \<Rightarrow> [(pos, pos + n, gs)])"
| "finditer p pos (x # xs) =
     (case rmatch p (x # xs) of
        None \<Rightarrow> finditer p (Suc pos) xs
      | Some (n, gs) \<Rightarrow>
          (pos, pos + n, gs) # finditer p (pos + max n 1) (drop (max n 1) (x # xs)))"
  by pat_completeness auto
termination
  by (relation "measure (\<lambda>(p, pos, s). length s)") auto

text \<open>\<^verbatim>\<open>re.match(p, s)\<close> matches at the start of \<open>s\<close> only.\<close>

definition re_match :: "atom list \<Rightarrow> pystr \<Rightarrow> rematch option" where
  "re_match p s = map_option (\<lambda>(n, gs). (0, n, gs)) (rmatch p s)"

text \<open>
  \<^verbatim>\<open>re.split(p, s)\<close>: the texts between the matches, and after each of them the
  groups of the match that ends it.
\<close>

fun pieces :: "pystr \<Rightarrow> nat \<Rightarrow> rematch list \<Rightarrow> pystr list" where
  "pieces s lo [] = [drop lo s]"
| "pieces s lo ((st, en, gs) # ms) = py_slice s lo st # gs @ pieces s en ms"

definition re_split :: "atom list \<Rightarrow> pystr \<Rightarrow> pystr list" where
  "re_split p s = pieces s 0 (finditer p 0 s)"

section \<open>The document tree\<close>

text \<open>
  The compiler builds dictionaries of two shapes. A node is
  \<^verbatim>\<open>{"type": t, "attrs": {...}, "content": [...]}\<close>, where \<^verbatim>\<open>attrs\<close> and
  \<^verbatim>\<open>content\<close> may be absent; a text run is
  \<^verbatim>\<open>{"type": "text", "text": s, "marks": [...]}\<close>, where \<^verbatim>\<open>marks\<close> may be absent, and
  a mark is \<^verbatim>\<open>{"type": t, "attrs": {...}}\<close> with \<^verbatim>\<open>attrs\<close> present for a link only.
  An absent key is \<open>None\<close>; the Python value \<^verbatim>\<open>None\<close> of an attribute is \<open>VNone\<close>.
\<close>

datatype val = VNone | VInt int | VStr pystr

datatype mark = Mark (mark_type: string) (mark_attrs: "(string \<times> val) list option")

datatype node =
    Node (node_type: string) (node_attrs: "(string \<times> val) list option")
         (node_content: "node list option")
  | Text (run_text: pystr) (marks: "mark list option")

text \<open>\<^verbatim>\<open>elem.get('text', '')\<close>.\<close>

fun get_text :: "node \<Rightarrow> pystr" where
  "get_text (Text t ms) = t"
| "get_text (Node ty a c) = []"

section \<open>The inline formatter: \<^verbatim>\<open>parse_inline_formatting\<close>\<close>

text \<open>
  The five patterns of \<^verbatim>\<open>drafts.py\<close>, lines 318 to 324, in the order of the source:
  \<^verbatim>\<open>\*\*(.*?)\*\*\<close>, \<^verbatim>\<open>\*(.*?)\*\<close>, \<^verbatim>\<open>~~(.*?)~~\<close>, \<^verbatim>\<open>`(.*?)`\<close> and
  \<^verbatim>\<open>\[([^\]]+)\]\(([^)]+)\)\<close> (93 is \<^verbatim>\<open>]\<close> and 41 is \<^verbatim>\<open>)\<close>).
\<close>

definition patterns :: "(atom list \<times> string) list" where
  "patterns =
    [(lit ''**'' @ [Group LazyStar Dot] @ lit ''**'', ''strong''),
     (lit ''*'' @ [Group LazyStar Dot] @ lit ''*'', ''em''),
     (lit ''~~'' @ [Group LazyStar Dot] @ lit ''~~'', ''strikethrough''),
     (lit ''`'' @ [Group LazyStar Dot] @ lit ''`'', ''code''),
     (lit ''['' @ [Group Plus (NoneOf 93)] @ lit '']('' @ [Group Plus (NoneOf 41)] @ lit '')'',
      ''link'')]"

text \<open>
  Lines 327 to 330: every match of every pattern, pattern after pattern, as
  \<^verbatim>\<open>(match.start(), match.end(), format_type, match)\<close>; of the match object the
  groups are kept.
\<close>

type_synonym fmatch = "nat \<times> nat \<times> string \<times> pystr list"

definition find_matches :: "pystr \<Rightarrow> fmatch list" where
  "find_matches text =
     concat (map (\<lambda>(pattern, format_type).
                    map (\<lambda>(start, stop, gs). (start, stop, format_type, gs))
                      (finditer pattern 0 text))
               patterns)"

text \<open>
  The body of the loop of lines 335 to 367 on the state \<^verbatim>\<open>(elements, current_pos)\<close>.
\<close>

definition link_attrs :: "pystr \<Rightarrow> (string \<times> val) list" where
  "link_attrs link_url =
     [(''href'', VStr link_url), (''target'', VStr (u ''_blank'')),
      (''rel'', VStr (u ''noopener noreferrer nofollow'')), (''class'', VNone)]"

fun add_match :: "pystr \<Rightarrow> node list \<times> nat \<Rightarrow> fmatch \<Rightarrow> error + (node list \<times> nat)" where
  "add_match text (elements, current_pos) (start, stop, format_type, gs) =
     (let elements =
        (if start > current_pos then
           (let plain_text = py_slice text current_pos start
            in if plain_text \<noteq> [] then elements @ [Text plain_text None] else elements)
         else elements)
      in if format_type = ''link'' then
           (case group gs 1 of Inl e \<Rightarrow> Inl e | Inr link_text \<Rightarrow>
             (case group gs 2 of Inl e \<Rightarrow> Inl e | Inr link_url \<Rightarrow>
                Inr (elements @
                       [Text link_text (Some [Mark ''link'' (Some (link_attrs link_url))])],
                     stop)))
         else
           (case group gs 1 of Inl e \<Rightarrow> Inl e | Inr formatted_text \<Rightarrow>
              Inr (elements @ [Text formatted_text (Some [Mark format_type None])], stop)))"

fun add_matches :: "pystr \<Rightarrow> node list \<times> nat \<Rightarrow> fmatch list \<Rightarrow> error + (node list \<times> nat)" where
  "add_matches text st [] = Inr st"
| "add_matches text st (m # ms) =
     (case add_match text st m of Inl e \<Rightarrow> Inl e | Inr st' \<Rightarrow> add_matches text st' ms)"

text \<open>
  The function, lines 312 to 386. \<^verbatim>\<open>matches.sort(key=lambda x: x[0])\<close> is a stable
  sort on the start offset, as \<open>sort_key\<close> is.
\<close>

definition parse_inline_formatting :: "pystr \<Rightarrow> error + node list" where
  "parse_inline_formatting text =
     (let matches = sort_key fst (find_matches text)
      in case add_matches text ([], 0) matches of
           Inl e \<Rightarrow> Inl e
         | Inr (elements, current_pos) \<Rightarrow>
             (let elements =
                (if current_pos < length text then
                   (let remaining_text = drop current_pos text
                    in if remaining_text \<noteq> [] then elements @ [Text remaining_text None]
                       else elements)
                 else elements);
                elements = (if elements = [] then [Text text None] else elements);
                elements = filter (\<lambda>elem. str_strip (get_text elem) \<noteq> []) elements;
                elements = (if elements = [] then [Text text None] else elements)
              in Inr elements))"

section \<open>The block compiler: \<^verbatim>\<open>parse_markup_to_json\<close>\<close>

text \<open>
  The two patterns of the block compiler: \<^verbatim>\<open>\d+\.\<close> of line 144 and
  \<^verbatim>\<open>\[(\d+)\]\s*(.*)\<close> of line 290.
\<close>

definition number_re :: "atom list" where
  "number_re = [Rep Plus Decimal] @ lit ''.''"

definition footnote_re :: "atom list" where
  "footnote_re =
     lit ''['' @ [Group Plus Decimal] @ lit '']'' @ [Rep Star Whitespace, Group Star Dot]"

text \<open>
  The loops of lines 129 to 136 and 147 to 154: one \<^verbatim>\<open>list_item\<close> for each item,
  its paragraph formatted inline.
\<close>

fun list_items :: "pystr list \<Rightarrow> error + node list" where
  "list_items [] = Inr []"
| "list_items (item # items) =
     (case parse_inline_formatting item of
        Inl e \<Rightarrow> Inl e
      | Inr c \<Rightarrow>
          (case list_items items of
             Inl e \<Rightarrow> Inl e
           | Inr rest \<Rightarrow>
               Inr (Node ''list_item'' None (Some [Node ''paragraph'' None (Some c)]) # rest)))"

definition button :: "pystr \<Rightarrow> pystr \<Rightarrow> node" where
  "button url text =
     Node ''button''
       (Some [(''url'', VStr url), (''text'', VStr text), (''action'', VNone), (''class'', VNone)])
       None"

definition cta_caption :: "pystr \<Rightarrow> node" where
  "cta_caption description = Node ''ctaCaption'' None (Some [Text description None])"

text \<open>
  The chain of \<^verbatim>\<open>if\<close> and \<^verbatim>\<open>elif\<close> of lines 79 to 307, for a block whose type and
  content are known and whose content is not empty: the nodes appended to
  \<^verbatim>\<open>content\<close> and the new value of \<^verbatim>\<open>footnote_counter\<close>.
\<close>

definition build_block :: "int \<Rightarrow> pystr \<Rightarrow> pystr \<Rightarrow> error + (node list \<times> int)" where
  "build_block footnote_counter block_type block_content =
    (if block_type = u ''title'' then
       Inr ([Node ''heading'' (Some [(''level'', VInt 1)]) (Some [Text block_content None])],
            footnote_counter)
     else if block_type = u ''subtitle'' then
       Inr ([Node ''heading'' (Some [(''level'', VInt 2)]) (Some [Text block_content None])],
            footnote_counter)
     else if block_type \<in> set (map u [''h1'', ''h2'', ''h3'', ''h4'', ''h5'', ''h6'']) then
       (case py_index block_type 1 of Inl e \<Rightarrow> Inl e | Inr c \<Rightarrow>
         (case py_int [c] of Inl e \<Rightarrow> Inl e | Inr level \<Rightarrow>
            Inr ([Node ''heading'' (Some [(''level'', VInt level)])
                    (Some [Text block_content None])],
                 footnote_counter)))
     else if block_type = u ''text'' then
       (case parse_inline_formatting block_content of Inl e \<Rightarrow> Inl e | Inr c \<Rightarrow>
          Inr ([Node ''paragraph'' None (Some c)], footnote_counter))
     else if block_type = u ''quote'' then
       Inr ([Node ''blockquote'' None
               (Some [Node ''paragraph'' None (Some [Text block_content None])])],
            footnote_counter)
     else if block_type = u ''pullquote'' then
       Inr ([Node ''pullquote'' (Some [(''align'', VNone), (''color'', VNone)])
               (Some [Node ''paragraph'' None (Some [Text block_content None])])],
            footnote_counter)
     else if block_type = u ''list'' then
       (let items = map str_strip
                      (filter (\<lambda>item. str_strip item \<noteq> []) (str_split [8226] block_content))
        in (case list_items items of Inl e \<Rightarrow> Inl e | Inr lis \<Rightarrow>
              Inr ([Node ''bullet_list'' None (Some lis)], footnote_counter)))
     else if block_type = u ''numberlist'' then
       (let items = drop 1 (re_split number_re block_content);
            items = map str_strip (filter (\<lambda>item. str_strip item \<noteq> []) items)
        in (case list_items items of Inl e \<Rightarrow> Inl e | Inr lis \<Rightarrow>
              Inr ([Node ''ordered_list'' (Some [(''start'', VInt 1), (''order'', VInt 1)])
                      (Some lis)],
                   footnote_counter)))
     else if block_type = u ''code'' then
       (let (language, code) =
              (case str_split1 [124] block_content of
                 [p0, p1] \<Rightarrow> (if str_strip p0 = [] then VNone else VStr (str_strip p0),
                              str_strip p1)
               | _ \<Rightarrow> (VNone, block_content))
        in Inr ([Node ''code_block'' (Some [(''language'', language)]) (Some [Text code None])],
                footnote_counter))
     else if block_type = u ''rule'' then
       Inr ([Node ''horizontal_rule'' None None], footnote_counter)
     else if block_type = u ''button'' then
       (if str_contains (u ''->'') block_content then
          (case unpack2 (str_split1 (u ''->'') block_content) of
             Inl e \<Rightarrow> Inl e
           | Inr (text, url) \<Rightarrow> Inr ([button (str_strip url) (str_strip text)], footnote_counter))
        else Inr ([button (u ''#'') block_content], footnote_counter))
     else if block_type = u ''subscribe'' then
       Inr ([button (u ''%%checkout_url%%'') block_content], footnote_counter)
     else if block_type = u ''share'' then
       Inr ([button (u ''%%share_url%%'') block_content], footnote_counter)
     else if block_type = u ''comment'' then
       Inr ([button (u ''%%half_magic_comments_url%%'') block_content], footnote_counter)
     else if block_type = u ''subscribewidget'' then
       (case (if str_contains (u ''>>'') block_content then
                (case unpack2 (str_split1 (u ''>>'') block_content) of
                   Inl e \<Rightarrow> Inl e
                 | Inr (button_text, description) \<Rightarrow>
                     Inr (str_strip button_text, str_strip description))
              else Inr (block_content, u ''Subscribe for more content!'')) of
          Inl e \<Rightarrow> Inl e
        | Inr (button_text, description) \<Rightarrow>
            Inr ([Node ''subscribeWidget''
                    (Some [(''url'', VStr (u ''%%checkout_url%%'')), (''text'', VStr button_text),
                           (''language'', VStr (u ''en''))])
                    (Some [cta_caption description])],
                 footnote_counter))
     else if block_type = u ''sharewidget'' then
       (case (if str_contains (u ''>>'') block_content then
                (case unpack2 (str_split1 (u ''>>'') block_content) of
                   Inl e \<Rightarrow> Inl e
                 | Inr (button_text, description) \<Rightarrow>
                     Inr (str_strip button_text, str_strip description))
              else Inr (block_content, u ''Share this post!'')) of
          Inl e \<Rightarrow> Inl e
        | Inr (button_text, description) \<Rightarrow>
            Inr ([Node ''captionedShareButton''
                    (Some [(''url'', VStr (u ''%%share_url%%'')), (''text'', VStr button_text)])
                    (Some [cta_caption description])],
                 footnote_counter))
     else if block_type = u ''latex'' then
       Inr ([Node ''latex_block''
               (Some [(''persistentExpression'', VStr block_content),
                      (''id'', VStr (u ''EQUATION_'' @ py_str footnote_counter))])
               None],
            footnote_counter + 1)
     else if block_type = u ''footnote'' then
       (case re_match footnote_re block_content of
          None \<Rightarrow> Inr ([], footnote_counter)
        | Some (start, stop, gs) \<Rightarrow>
            (case group gs 1 of Inl e \<Rightarrow> Inl e | Inr digits \<Rightarrow>
              (case py_int digits of Inl e \<Rightarrow> Inl e | Inr num \<Rightarrow>
                (case group gs 2 of Inl e \<Rightarrow> Inl e | Inr text \<Rightarrow>
                   Inr ([Node ''footnote'' (Some [(''number'', VInt num)])
                           (Some [Node ''paragraph'' None (Some [Text text None])])],
                        footnote_counter)))))
     else if block_type = u ''break'' then
       Inr ([Node ''paragraph'' None None], footnote_counter)
     else Inr ([], footnote_counter))"

text \<open>
  Lines 72 and 73: \<^verbatim>\<open>block.split('::', 1)\<close> unpacked into the type and the content,
  the type stripped and lowered, the content stripped.
\<close>

definition split_block :: "pystr \<Rightarrow> error + (pystr \<times> pystr)" where
  "split_block block =
     (case unpack2 (str_split1 (u ''::'') block) of
        Inl e \<Rightarrow> Inl e
      | Inr (block_type, block_content) \<Rightarrow>
          Inr (str_lower (str_strip block_type), str_strip block_content))"

text \<open>
  The body of the loop of lines 63 to 307 on the state
  \<^verbatim>\<open>(content, footnote_counter)\<close>.
\<close>

fun process_block :: "node list \<times> int \<Rightarrow> pystr \<Rightarrow> error + (node list \<times> int)" where
  "process_block (content, footnote_counter) block =
     (if \<not> str_contains (u ''::'') block then
        (case parse_inline_formatting block of Inl e \<Rightarrow> Inl e | Inr c \<Rightarrow>
           Inr (content @ [Node ''paragraph'' None (Some c)], footnote_counter))
      else
        (case split_block block of Inl e \<Rightarrow> Inl e | Inr (block_type, block_content) \<Rightarrow>
           if block_content = [] then Inr (content, footnote_counter)
           else
             (case build_block footnote_counter block_type block_content of
                Inl e \<Rightarrow> Inl e
              | Inr (new, footnote_counter') \<Rightarrow> Inr (content @ new, footnote_counter'))))"

fun process_blocks :: "node list \<times> int \<Rightarrow> pystr list \<Rightarrow> error + (node list \<times> int)" where
  "process_blocks st [] = Inr st"
| "process_blocks st (block # blocks) =
     (case process_block st block of Inl e \<Rightarrow> Inl e | Inr st' \<Rightarrow> process_blocks st' blocks)"

text \<open>Line 58: the blocks of the markup.\<close>

definition blocks_of :: "pystr \<Rightarrow> pystr list" where
  "blocks_of markup_text =
     map str_strip (filter (\<lambda>block. str_strip block \<noteq> []) (str_split [124] markup_text))"

text \<open>The function, lines 40 to 309 (59 is the semicolon, 44 the comma, 124 the bar).\<close>

definition parse_markup_to_json :: "pystr \<Rightarrow> error + node" where
  "parse_markup_to_json markup_text =
     (let markup_text = str_replace 59 44 markup_text;
          blocks = blocks_of markup_text
      in case process_blocks ([], 1) blocks of
           Inl e \<Rightarrow> Inl e
         | Inr (content, footnote_counter) \<Rightarrow> Inr (Node ''doc'' None (Some content)))"

section \<open>The second copy: \<^verbatim>\<open>examples/python/draft_create.py\<close>\<close>

text \<open>
  \<^verbatim>\<open>src/examples/python/draft_create.py\<close> defines \<^verbatim>\<open>parse_markup_to_json\<close> (lines 30
  to 299) and \<^verbatim>\<open>parse_inline_formatting\<close> (lines 302 to 376) once more, with the same
  import of \<^verbatim>\<open>re\<close>. The definitions below are translated from that file, statement by
  statement as above; their names carry the prefix \<open>dc_\<close>. The dictionary literals
  \<open>link_attrs\<close>, \<open>button\<close> and \<open>cta_caption\<close> are written the same in both files.
\<close>

text \<open>Lines 308 to 314: the five patterns.\<close>

definition dc_patterns :: "(atom list \<times> string) list" where
  "dc_patterns =
    [(lit ''**'' @ [Group LazyStar Dot] @ lit ''**'', ''strong''),
     (lit ''*'' @ [Group LazyStar Dot] @ lit ''*'', ''em''),
     (lit ''~~'' @ [Group LazyStar Dot] @ lit ''~~'', ''strikethrough''),
     (lit ''`'' @ [Group LazyStar Dot] @ lit ''`'', ''code''),
     (lit ''['' @ [Group Plus (NoneOf 93)] @ lit '']('' @ [Group Plus (NoneOf 41)] @ lit '')'',
      ''link'')]"

text \<open>Lines 317 to 320.\<close>

definition dc_find_matches :: "pystr \<Rightarrow> fmatch list" where
  "dc_find_matches text =
     concat (map (\<lambda>(pattern, format_type).
                    map (\<lambda>(start, stop, gs). (start, stop, format_type, gs))
                      (finditer pattern 0 text))
               dc_patterns)"

text \<open>The body of the loop of lines 325 to 357.\<close>

fun dc_add_match :: "pystr \<Rightarrow> node list \<times> nat \<Rightarrow> fmatch \<Rightarrow> error + (node list \<times> nat)" where
  "dc_add_match text (elements, current_pos) (start, stop, format_type, gs) =
     (let elements =
        (if start > current_pos then
           (let plain_text = py_slice text current_pos start
            in if plain_text \<noteq> [] then elements @ [Text plain_text None] else elements)
         else elements)
      in if format_type = ''link'' then
           (case group gs 1 of Inl e \<Rightarrow> Inl e | Inr link_text \<Rightarrow>
             (case group gs 2 of Inl e \<Rightarrow> Inl e | Inr link_url \<Rightarrow>
                Inr (elements @
                       [Text link_text (Some [Mark ''link'' (Some (link_attrs link_url))])],
                     stop)))
         else
           (case group gs 1 of Inl e \<Rightarrow> Inl e | Inr formatted_text \<Rightarrow>
              Inr (elements @ [Text formatted_text (Some [Mark format_type None])], stop)))"

fun dc_add_matches :: "pystr \<Rightarrow> node list \<times> nat \<Rightarrow> fmatch list \<Rightarrow> error + (node list \<times> nat)" where
  "dc_add_matches text st [] = Inr st"
| "dc_add_matches text st (m # ms) =
     (case dc_add_match text st m of Inl e \<Rightarrow> Inl e | Inr st' \<Rightarrow> dc_add_matches text st' ms)"

text \<open>The function, lines 302 to 376.\<close>

definition dc_parse_inline_formatting :: "pystr \<Rightarrow> error + node list" where
  "dc_parse_inline_formatting text =
     (let matches = sort_key fst (dc_find_matches text)
      in case dc_add_matches text ([], 0) matches of
           Inl e \<Rightarrow> Inl e
         | Inr (elements, current_pos) \<Rightarrow>
             (let elements =
                (if current_pos < length text then
                   (let remaining_text = drop current_pos text
                    in if remaining_text \<noteq> [] then elements @ [Text remaining_text None]
                       else elements)
                 else elements);
                elements = (if elements = [] then [Text text None] else elements);
                elements = filter (\<lambda>elem. str_strip (get_text elem) \<noteq> []) elements;
                elements = (if elements = [] then [Text text None] else elements)
              in Inr elements))"

text \<open>The patterns of lines 134 and 280.\<close>

definition dc_number_re :: "atom list" where
  "dc_number_re = [Rep Plus Decimal] @ lit ''.''"

definition dc_footnote_re :: "atom list" where
  "dc_footnote_re =
     lit ''['' @ [Group Plus Decimal] @ lit '']'' @ [Rep Star Whitespace, Group Star Dot]"

text \<open>The loops of lines 119 to 126 and 137 to 144.\<close>

fun dc_list_items :: "pystr list \<Rightarrow> error + node list" where
  "dc_list_items [] = Inr []"
| "dc_list_items (item # items) =
     (case dc_parse_inline_formatting item of
        Inl e \<Rightarrow> Inl e
      | Inr c \<Rightarrow>
          (case dc_list_items items of
             Inl e \<Rightarrow> Inl e
           | Inr rest \<Rightarrow>
               Inr (Node ''list_item'' None (Some [Node ''paragraph'' None (Some c)]) # rest)))"

text \<open>The chain of \<^verbatim>\<open>if\<close> and \<^verbatim>\<open>elif\<close> of lines 69 to 297.\<close>

definition dc_build_block :: "int \<Rightarrow> pystr \<Rightarrow> pystr \<Rightarrow> error + (node list \<times> int)" where
  "dc_build_block footnote_counter block_type block_content =
    (if block_type = u ''title'' then
       Inr ([Node ''heading'' (Some [(''level'', VInt 1)]) (Some [Text block_content None])],
            footnote_counter)
     else if block_type = u ''subtitle'' then
       Inr ([Node ''heading'' (Some [(''level'', VInt 2)]) (Some [Text block_content None])],
            footnote_counter)
     else if block_type \<in> set (map u [''h1'', ''h2'', ''h3'', ''h4'', ''h5'', ''h6'']) then
       (case py_index block_type 1 of Inl e \<Rightarrow> Inl e | Inr c \<Rightarrow>
         (case py_int [c] of Inl e \<Rightarrow> Inl e | Inr level \<Rightarrow>
            Inr ([Node ''heading'' (Some [(''level'', VInt level)])
                    (Some [Text block_content None])],
                 footnote_counter)))
     else if block_type = u ''text'' then
       (case dc_parse_inline_formatting block_content of Inl e \<Rightarrow> Inl e | Inr c \<Rightarrow>
          Inr ([Node ''paragraph'' None (Some c)], footnote_counter))
     else if block_type = u ''quote'' then
       Inr ([Node ''blockquote'' None
               (Some [Node ''paragraph'' None (Some [Text block_content None])])],
            footnote_counter)
     else if block_type = u ''pullquote'' then
       Inr ([Node ''pullquote'' (Some [(''align'', VNone), (''color'', VNone)])
               (Some [Node ''paragraph'' None (Some [Text block_content None])])],
            footnote_counter)
     else if block_type = u ''list'' then
       (let items = map str_strip
                      (filter (\<lambda>item. str_strip item \<noteq> []) (str_split [8226] block_content))
        in (case dc_list_items items of Inl e \<Rightarrow> Inl e | Inr lis \<Rightarrow>
              Inr ([Node ''bullet_list'' None (Some lis)], footnote_counter)))
     else if block_type = u ''numberlist'' then
       (let items = drop 1 (re_split dc_number_re block_content);
            items = map str_strip (filter (\<lambda>item. str_strip item \<noteq> []) items)
        in (case dc_list_items items of Inl e \<Rightarrow> Inl e | Inr lis \<Rightarrow>
              Inr ([Node ''ordered_list'' (Some [(''start'', VInt 1), (''order'', VInt 1)])
                      (Some lis)],
                   footnote_counter)))
     else if block_type = u ''code'' then
       (let (language, code) =
              (case str_split1 [124] block_content of
                 [p0, p1] \<Rightarrow> (if str_strip p0 = [] then VNone else VStr (str_strip p0),
                              str_strip p1)
               | _ \<Rightarrow> (VNone, block_content))
        in Inr ([Node ''code_block'' (Some [(''language'', language)]) (Some [Text code None])],
                footnote_counter))
     else if block_type = u ''rule'' then
       Inr ([Node ''horizontal_rule'' None None], footnote_counter)
     else if block_type = u ''button'' then
       (if str_contains (u ''->'') block_content then
          (case unpack2 (str_split1 (u ''->'') block_content) of
             Inl e \<Rightarrow> Inl e
           | Inr (text, url) \<Rightarrow> Inr ([button (str_strip url) (str_strip text)], footnote_counter))
        else Inr ([button (u ''#'') block_content], footnote_counter))
     else if block_type = u ''subscribe'' then
       Inr ([button (u ''%%checkout_url%%'') block_content], footnote_counter)
     else if block_type = u ''share'' then
       Inr ([button (u ''%%share_url%%'') block_content], footnote_counter)
     else if block_type = u ''comment'' then
       Inr ([button (u ''%%half_magic_comments_url%%'') block_content], footnote_counter)
     else if block_type = u ''subscribewidget'' then
       (case (if str_contains (u ''>>'') block_content then
                (case unpack2 (str_split1 (u ''>>'') block_content) of
                   Inl e \<Rightarrow> Inl e
                 | Inr (button_text, description) \<Rightarrow>
                     Inr (str_strip button_text, str_strip description))
              else Inr (block_content, u ''Subscribe for more content!'')) of
          Inl e \<Rightarrow> Inl e
        | Inr (button_text, description) \<Rightarrow>
            Inr ([Node ''subscribeWidget''
                    (Some [(''url'', VStr (u ''%%checkout_url%%'')), (''text'', VStr button_text),
                           (''language'', VStr (u ''en''))])
                    (Some [cta_caption description])],
                 footnote_counter))
     else if block_type = u ''sharewidget'' then
       (case (if str_contains (u ''>>'') block_content then
                (case unpack2 (str_split1 (u ''>>'') block_content) of
                   Inl e \<Rightarrow> Inl e
                 | Inr (button_text, description) \<Rightarrow>
                     Inr (str_strip button_text, str_strip description))
              else Inr (block_content, u ''Share this post!'')) of
          Inl e \<Rightarrow> Inl e
        | Inr (button_text, description) \<Rightarrow>
            Inr ([Node ''captionedShareButton''
                    (Some [(''url'', VStr (u ''%%share_url%%'')), (''text'', VStr button_text)])
                    (Some [cta_caption description])],
                 footnote_counter))
     else if block_type = u ''latex'' then
       Inr ([Node ''latex_block''
               (Some [(''persistentExpression'', VStr block_content),
                      (''id'', VStr (u ''EQUATION_'' @ py_str footnote_counter))])
               None],
            footnote_counter + 1)
     else if block_type = u ''footnote'' then
       (case re_match dc_footnote_re block_content of
          None \<Rightarrow> Inr ([], footnote_counter)
        | Some (start, stop, gs) \<Rightarrow>
            (case group gs 1 of Inl e \<Rightarrow> Inl e | Inr digits \<Rightarrow>
              (case py_int digits of Inl e \<Rightarrow> Inl e | Inr num \<Rightarrow>
                (case group gs 2 of Inl e \<Rightarrow> Inl e | Inr text \<Rightarrow>
                   Inr ([Node ''footnote'' (Some [(''number'', VInt num)])
                           (Some [Node ''paragraph'' None (Some [Text text None])])],
                        footnote_counter)))))
     else if block_type = u ''break'' then
       Inr ([Node ''paragraph'' None None], footnote_counter)
     else Inr ([], footnote_counter))"

text \<open>Lines 62 to 64.\<close>

definition dc_split_block :: "pystr \<Rightarrow> error + (pystr \<times> pystr)" where
  "dc_split_block block =
     (case unpack2 (str_split1 (u ''::'') block) of
        Inl e \<Rightarrow> Inl e
      | Inr (block_type, block_content) \<Rightarrow>
          Inr (str_lower (str_strip block_type), str_strip block_content))"

text \<open>The body of the loop of lines 53 to 297.\<close>

fun dc_process_block :: "node list \<times> int \<Rightarrow> pystr \<Rightarrow> error + (node list \<times> int)" where
  "dc_process_block (content, footnote_counter) block =
     (if \<not> str_contains (u ''::'') block then
        (case dc_parse_inline_formatting block of Inl e \<Rightarrow> Inl e | Inr c \<Rightarrow>
           Inr (content @ [Node ''paragraph'' None (Some c)], footnote_counter))
      else
        (case dc_split_block block of Inl e \<Rightarrow> Inl e | Inr (block_type, block_content) \<Rightarrow>
           if block_content = [] then Inr (content, footnote_counter)
           else
             (case dc_build_block footnote_counter block_type block_content of
                Inl e \<Rightarrow> Inl e
              | Inr (new, footnote_counter') \<Rightarrow> Inr (content @ new, footnote_counter'))))"

fun dc_process_blocks :: "node list \<times> int \<Rightarrow> pystr list \<Rightarrow> error + (node list \<times> int)" where
  "dc_process_blocks st [] = Inr st"
| "dc_process_blocks st (block # blocks) =
     (case dc_process_block st block of Inl e \<Rightarrow> Inl e | Inr st' \<Rightarrow> dc_process_blocks st' blocks)"

text \<open>Line 48.\<close>

definition dc_blocks_of :: "pystr \<Rightarrow> pystr list" where
  "dc_blocks_of markup_text =
     map str_strip (filter (\<lambda>block. str_strip block \<noteq> []) (str_split [124] markup_text))"

text \<open>The function, lines 30 to 299.\<close>

definition dc_parse_markup_to_json :: "pystr \<Rightarrow> error + node" where
  "dc_parse_markup_to_json markup_text =
     (let markup_text = str_replace 59 44 markup_text;
          blocks = dc_blocks_of markup_text
      in case dc_process_blocks ([], 1) blocks of
           Inl e \<Rightarrow> Inl e
         | Inr (content, footnote_counter) \<Rightarrow> Inr (Node ''doc'' None (Some content)))"

section \<open>Notions used to state the properties\<close>

text \<open>
  The number of capturing groups of a pattern.
\<close>

fun ngroups :: "atom list \<Rightarrow> nat" where
  "ngroups [] = 0"
| "ngroups (Group q cl # p) = Suc (ngroups p)"
| "ngroups (a # p) = ngroups p"

text \<open>
  A text run, and a match that has the groups the loop of the formatter reads: two for a
  link, one for the other four patterns.
\<close>

fun is_run :: "node \<Rightarrow> bool" where
  "is_run (Text t ms) = True"
| "is_run (Node ty a c) = False"

definition good_match :: "fmatch \<Rightarrow> bool" where
  "good_match m = (case m of (st, en, ft, gs) \<Rightarrow> length gs = (if ft = ''link'' then 2 else 1))"

text \<open>
  All nodes of a tree, the root first.
\<close>

fun all_nodes :: "node \<Rightarrow> node list" where
  "all_nodes (Text t ms) = [Text t ms]"
| "all_nodes (Node ty a None) = [Node ty a None]"
| "all_nodes (Node ty a (Some ns)) = Node ty a (Some ns) # concat (map all_nodes ns)"

text \<open>
  The type tags of the nodes that \<^verbatim>\<open>parse_markup_to_json\<close> appends to \<^verbatim>\<open>content\<close>, the
  attribute names that go with each tag (\<open>None\<close> for a tag whose nodes have no
  \<^verbatim>\<open>attrs\<close>), and the nodes that have one of these tags and exactly its attributes.
\<close>

definition block_types :: "string list" where
  "block_types =
     [''heading'', ''paragraph'', ''blockquote'', ''pullquote'', ''bullet_list'',
      ''ordered_list'', ''code_block'', ''horizontal_rule'', ''button'', ''subscribeWidget'',
      ''captionedShareButton'', ''latex_block'', ''footnote'']"

definition attr_keys :: "string \<Rightarrow> string list option" where
  "attr_keys ty =
     (if ty = ''heading'' then Some [''level'']
      else if ty = ''pullquote'' then Some [''align'', ''color'']
      else if ty = ''ordered_list'' then Some [''start'', ''order'']
      else if ty = ''code_block'' then Some [''language'']
      else if ty = ''button'' then Some [''url'', ''text'', ''action'', ''class'']
      else if ty = ''subscribeWidget'' then Some [''url'', ''text'', ''language'']
      else if ty = ''captionedShareButton'' then Some [''url'', ''text'']
      else if ty = ''latex_block'' then Some [''persistentExpression'', ''id'']
      else if ty = ''footnote'' then Some [''number'']
      else None)"

fun is_block :: "node \<Rightarrow> bool" where
  "is_block (Node ty a c) = (ty \<in> set block_types \<and> map_option (map fst) a = attr_keys ty)"
| "is_block (Text t ms) = False"

text \<open>
  The number of digits of the bracketed number of a footnote block: for a block with
  \<^verbatim>\<open>::\<close> whose type is \<^verbatim>\<open>footnote\<close> and whose content matches the pattern of line 290,
  the length of group 1; for every other block, 0.
\<close>

definition footnote_digits :: "pystr \<Rightarrow> nat" where
  "footnote_digits block =
     (if str_contains (u ''::'') block then
        (case split_block block of
           Inr (block_type, block_content) \<Rightarrow>
             (if block_type = u ''footnote'' then
                (case re_match footnote_re block_content of
                   Some (start, stop, digits # gs) \<Rightarrow> length digits
                 | _ \<Rightarrow> 0)
              else 0)
         | Inl e \<Rightarrow> 0)
      else 0)"

text \<open>
  The nodes found below the nodes of \<^verbatim>\<open>content\<close>: paragraphs, list items, captions and
  text runs.
\<close>

fun is_inner :: "node \<Rightarrow> bool" where
  "is_inner (Text t ms) = True"
| "is_inner (Node ty a c) = (ty \<in> {''paragraph'', ''list_item'', ''ctaCaption''})"

text \<open>
  The node of a latex block, lines 279 to 285.
\<close>

definition latex_node :: "pystr \<Rightarrow> int \<Rightarrow> node" where
  "latex_node expression n =
     Node ''latex_block''
       (Some [(''persistentExpression'', VStr expression),
              (''id'', VStr (u ''EQUATION_'' @ py_str n))])
       None"

text \<open>
  A node of a given type tag.
\<close>

fun has_type :: "string \<Rightarrow> node \<Rightarrow> bool" where
  "has_type ty (Node ty' a c) = (ty' = ty)"
| "has_type ty (Text t ms) = False"

text \<open>
  The type tags that the chain of lines 79 to 307 knows, and the heading node.
\<close>

definition block_tags :: "string list" where
  "block_tags =
     [''title'', ''subtitle'', ''h1'', ''h2'', ''h3'', ''h4'', ''h5'', ''h6'', ''text'',
      ''quote'', ''pullquote'', ''list'', ''numberlist'', ''code'', ''rule'', ''button'',
      ''subscribe'', ''share'', ''comment'', ''subscribewidget'', ''sharewidget'', ''latex'',
      ''footnote'', ''break'']"

definition heading :: "int \<Rightarrow> pystr \<Rightarrow> node" where
  "heading level body = Node ''heading'' (Some [(''level'', VInt level)]) (Some [Text body None])"

text \<open>
  A well-formed document: the root has the type \<^verbatim>\<open>doc\<close>, no attributes and a list of
  children; every child is a node of one of the block types, with the attributes of its
  type; no node below the root has the type \<^verbatim>\<open>doc\<close>.
\<close>

definition well_formed_document :: "node \<Rightarrow> bool" where
  "well_formed_document d =
     (case d of
        Node ty a (Some ns) \<Rightarrow>
          ty = ''doc'' \<and> a = None \<and> list_all is_block ns \<and>
          list_all (\<lambda>n. list_all (\<lambda>m. \<not> has_type ''doc'' m) (all_nodes n)) ns
      | _ \<Rightarrow> False)"

text \<open>
  A node of \<^verbatim>\<open>content\<close> with its tree: a block whose descendants are inner nodes.
\<close>

definition block_ok :: "node \<Rightarrow> bool" where
  "block_ok n \<longleftrightarrow> is_block n \<and> list_all (\<lambda>m. m = n \<or> is_inner m) (all_nodes n)"

text \<open>
  A block that reaches the branch of line 278: it has \<^verbatim>\<open>::\<close>, its type is \<^verbatim>\<open>latex\<close>
  and its content is not empty; and the content of a block.
\<close>

definition is_latex_block :: "pystr \<Rightarrow> bool" where
  "is_latex_block block \<longleftrightarrow>
     str_contains (u ''::'') block \<and>
     (case split_block block of
        Inr (block_type, block_content) \<Rightarrow> block_type = u ''latex'' \<and> block_content \<noteq> []
      | Inl e \<Rightarrow> False)"

definition latex_body :: "pystr \<Rightarrow> pystr" where
  "latex_body block =
     (case split_block block of Inr (block_type, block_content) \<Rightarrow> block_content | Inl e \<Rightarrow> [])"

text \<open>
  A code block has the attribute \<^verbatim>\<open>language\<close> and its value is \<^verbatim>\<open>None\<close>.
\<close>

definition language_none :: "node \<Rightarrow> bool" where
  "language_none m \<longleftrightarrow>
     (has_type ''code_block'' m \<longrightarrow> node_attrs m = Some [(''language'', VNone)])"

section \<open>Properties of the runtime model\<close>

subsection \<open>A match has the groups of its pattern\<close>

lemma lazy_star_cont: "lazy_star cl k s = Some (g, r) \<Longrightarrow> \<exists>s'. k s' = Some r"
  by (induction s arbitrary: g) (auto split: option.splits if_splits)

lemma greedy_star_cont: "greedy_star cl k s = Some (g, r) \<Longrightarrow> \<exists>s'. k s' = Some r"
  by (induction s arbitrary: g) (auto split: option.splits if_splits)

lemma greedy_plus_cont: "greedy_plus cl k s = Some (g, r) \<Longrightarrow> \<exists>s'. k s' = Some r"
  by (cases s) (auto split: if_splits dest: greedy_star_cont)

lemma repeat_cont: "repeat q cl k s = Some (g, r) \<Longrightarrow> \<exists>s'. k s' = Some r"
  by (cases q) (auto dest: lazy_star_cont greedy_star_cont greedy_plus_cont)

lemma rmatch_ngroups: "rmatch p s = Some (n, gs) \<Longrightarrow> length gs = ngroups p"
proof (induction p s arbitrary: n gs rule: rmatch.induct)
  case (1 s)
  then show ?case by simp
next
  case (2 c p)
  then show ?case by simp
next
  case (3 c p x xs)
  then show ?case by (auto split: if_splits)
next
  case (4 q cl p s)
  from "4.prems" obtain g m hs where "repeat q (in_class cl) (rmatch p) s = Some (g, m, hs)" and "gs = hs"
    by auto
  with "4.IH" repeat_cont show ?case by fastforce
next
  case (5 q cl p s)
  from "5.prems" obtain g m hs where "repeat q (in_class cl) (rmatch p) s = Some (g, m, hs)" and "gs = g # hs"
    by auto
  with "5.IH" repeat_cont show ?case by fastforce
qed

lemma finditer_ngroups:
  "(st, en, gs) \<in> set (finditer p pos s) \<Longrightarrow> length gs = ngroups p"
proof (induction p pos s rule: finditer.induct)
  case (1 p pos)
  then show ?case by (auto split: option.splits dest: rmatch_ngroups rmatch_ngroups[OF sym])
next
  case (2 p pos x xs)
  then show ?case by (auto split: option.splits dest: rmatch_ngroups rmatch_ngroups[OF sym])
qed

lemma find_matches_groups:
  "(st, en, ft, gs) \<in> set (find_matches text) \<Longrightarrow>
     (ft = ''link'' \<and> length gs = 2) \<or> (ft \<noteq> ''link'' \<and> length gs = 1)"
  by (auto simp: find_matches_def patterns_def lit_def dest!: finditer_ngroups)

section \<open>Properties of the inline formatter\<close>

subsection \<open>The formatter raises nothing and returns runs\<close>

lemma find_matches_good: "m \<in> set (find_matches text) \<Longrightarrow> good_match m"
  using find_matches_groups [of "fst m" "fst (snd m)" "fst (snd (snd m))" "snd (snd (snd m))" "text"]
  by (auto simp: good_match_def split: prod.splits)

lemma add_match_ok:
  assumes "good_match m" and "list_all is_run els"
  shows "\<exists>els' pos'. add_match text (els, pos) m = Inr (els', pos') \<and> list_all is_run els'"
proof -
  obtain st en ft gs where m: "m = (st, en, ft, gs)" by (cases m) auto
  show ?thesis
  proof (cases "ft = ''link''")
    case True
    with assms m have "length gs = 2" by (simp add: good_match_def)
    with True m assms(2) show ?thesis by (simp add: group_def Let_def)
  next
    case False
    with assms m have "length gs = 1" by (simp add: good_match_def)
    with False m assms(2) show ?thesis by (simp add: group_def Let_def)
  qed
qed

lemma add_matches_ok:
  "\<forall>m\<in>set ms. good_match m \<Longrightarrow> list_all is_run els \<Longrightarrow>
     \<exists>els' pos'. add_matches text (els, pos) ms = Inr (els', pos') \<and> list_all is_run els'"
proof (induction ms arbitrary: els pos)
  case Nil
  then show ?case by simp
next
  case (Cons m ms)
  from Cons.prems obtain els1 pos1 where
    1: "add_match text (els, pos) m = Inr (els1, pos1)" and 2: "list_all is_run els1"
    using add_match_ok [of m els "text" pos] by auto
  from Cons.IH [OF _ 2, of pos1] Cons.prems(1) 1 show ?case by simp
qed

lemma str_strip_Nil [simp]: "str_strip [] = []"
  by (simp add: str_strip_def)

lemma parse_inline_formatting_total:
  "\<exists>rs. parse_inline_formatting text = Inr rs \<and> rs \<noteq> [] \<and> list_all is_run rs \<and>
        (text \<noteq> [] \<longrightarrow> (\<forall>r\<in>set rs. get_text r \<noteq> []))"
proof -
  have "\<forall>m\<in>set (sort_key fst (find_matches text)). good_match m"
    by (simp add: find_matches_good)
  then obtain els pos where
    1: "add_matches text ([], 0) (sort_key fst (find_matches text)) = Inr (els, pos)"
    and 2: "list_all is_run els"
    using add_matches_ok [of "sort_key fst (find_matches text)" "[]" "text" 0] by auto
  define els1 where "els1 = (if pos < length text then
                   (let remaining_text = drop pos text
                    in if remaining_text \<noteq> [] then els @ [Text remaining_text None]
                       else els)
                 else els)"
  define els2 where "els2 = (if els1 = [] then [Text text None] else els1)"
  define els3 where "els3 = filter (\<lambda>elem. str_strip (get_text elem) \<noteq> []) els2"
  define els4 where "els4 = (if els3 = [] then [Text text None] else els3)"
  have r: "parse_inline_formatting text = Inr els4"
    using 1 by (simp add: parse_inline_formatting_def els1_def els2_def els3_def els4_def Let_def)
  have "list_all is_run els1" using 2 by (simp add: els1_def Let_def)
  then have "list_all is_run els2" by (simp add: els2_def)
  then have "list_all is_run els3" by (simp add: els3_def list_all_iff)
  then have a: "list_all is_run els4" by (simp add: els4_def)
  have "\<forall>r\<in>set els3. get_text r \<noteq> []" by (auto simp: els3_def)
  then have b: "text \<noteq> [] \<longrightarrow> (\<forall>r\<in>set els4. get_text r \<noteq> [])" by (simp add: els4_def)
  have c: "els4 \<noteq> []" by (simp add: els4_def)
  from r a b c show ?thesis by blast
qed

subsection \<open>The formatter on given texts\<close>

text \<open>The definitions that evaluate the formatter on a given text.\<close>

lemmas inline_eval =
  parse_inline_formatting_def find_matches_def patterns_def lit_def u_def group_def
  str_strip_def isspace_def py_slice_def link_attrs_def Let_def

text \<open>
  Claim C8. \<^verbatim>\<open>parse_inline_formatting("[x](http://y)")\<close> returns exactly one run: its text
  is \<^verbatim>\<open>x\<close> and its only mark is a link whose attributes are href \<^verbatim>\<open>http://y\<close>, target
  \<^verbatim>\<open>_blank\<close>, rel \<^verbatim>\<open>noopener noreferrer nofollow\<close> and class \<^verbatim>\<open>None\<close>.
\<close>

theorem C8_link_attributes:
  "parse_inline_formatting (u ''[x](http://y)'') =
     Inr [Text (u ''x'')
            (Some [Mark ''link''
                     (Some [(''href'', VStr (u ''http://y'')),
                            (''target'', VStr (u ''_blank'')),
                            (''rel'', VStr (u ''noopener noreferrer nofollow'')),
                            (''class'', VNone)])])]"
  by (simp add: inline_eval)

text \<open>
  Claim C3 says that \<^verbatim>\<open>parse_inline_formatting("a **b** c")\<close> returns three runs. The code
  returns four. The pattern for italic, \<^verbatim>\<open>\*(.*?)\*\<close>, matches each of the two
  \<^verbatim>\<open>**\<close> with an empty group, at offsets 2 to 4 and 5 to 7. The stable sort leaves these
  two matches after the bold match, which starts at offset 2 as well and sets
  \<^verbatim>\<open>current_pos\<close> to 7. The first of them sets \<^verbatim>\<open>current_pos\<close> back to 4; the second
  starts at 5, so the text between the offsets 4 and 5, \<^verbatim>\<open>b\<close>, is added once more, as a
  plain run. The two empty italic runs are filtered out; the second \<^verbatim>\<open>b\<close> stays.
\<close>

theorem C3_bold_span_is_duplicated:
  "parse_inline_formatting (u ''a **b** c'') =
     Inr [Text (u ''a '') None, Text (u ''b'') (Some [Mark ''strong'' None]),
          Text (u ''b'') None, Text (u '' c'') None]"
  by (simp add: inline_eval)

text \<open>
  Claim C2 says that the texts of the runs, concatenated, are the input without the
  characters of the markers, no character twice. For \<^verbatim>\<open>**a**\<close> the code returns the bold
  run \<^verbatim>\<open>a\<close> and then a plain run \<^verbatim>\<open>a\<close>, by the overlap of the bold match with the two
  empty italic matches described for claim C3: the concatenation is \<^verbatim>\<open>aa\<close>.
\<close>

theorem C2_bold_text_emitted_twice:
  "parse_inline_formatting (u ''**a**'') =
     Inr [Text (u ''a'') (Some [Mark ''strong'' None]), Text (u ''a'') None] \<and>
   concat (map get_text [Text (u ''a'') (Some [Mark ''strong'' None]), Text (u ''a'') None]) =
     u ''aa''"
  by (simp add: inline_eval)

lemma formatter_arguments_nonempty:
  "b \<in> set (blocks_of s) \<Longrightarrow> b \<noteq> []"
  "item \<in> set (map str_strip (filter (\<lambda>item. str_strip item \<noteq> []) items)) \<Longrightarrow> item \<noteq> []"
  by (auto simp: blocks_of_def)

text \<open>
  Claim C4 as stated fails for the empty string: no pattern matches, the fallback of line
  377 makes the single run with the text \<^verbatim>\<open>""\<close>, the filter of line 380 removes it and the
  fallback of line 384 makes it again.
\<close>

theorem C4_counterexample: "parse_inline_formatting [] = Inr [Text [] None]"
  by (simp add: inline_eval)

text \<open>
  Claim C4, as the code has it: for every string that is not empty,
  \<^verbatim>\<open>parse_inline_formatting\<close> raises nothing and returns at least one element; every
  element is a text run and its text is not empty. The compiler calls the formatter on a
  block, on the content of a block or on a list item, each stripped and not empty
  (lines 58, 76, 127 and 145).
\<close>

theorem C4_runs_of_nonempty_text_are_nonempty:
  assumes "text \<noteq> []"
  shows "\<exists>rs. parse_inline_formatting text = Inr rs \<and> rs \<noteq> [] \<and>
              list_all (\<lambda>r. is_run r \<and> get_text r \<noteq> []) rs"
  using assms parse_inline_formatting_total [of "text"] by (auto simp: list_all_iff)

text \<open>
  An instance: the text of two spaces. The filter removes the only run, whose text is
  empty after stripping, and the second fallback returns the text itself.
\<close>

theorem C4_witness:
  "u ''  '' \<noteq> [] \<and> parse_inline_formatting (u ''  '') = Inr [Text (u ''  '') None] \<and>
   (\<exists>rs. parse_inline_formatting (u ''  '') = Inr rs \<and> rs \<noteq> [] \<and>
         list_all (\<lambda>r. is_run r \<and> get_text r \<noteq> []) rs)"
proof -
  have h: "u ''  '' \<noteq> []" by (simp add: u_def)
  have "parse_inline_formatting (u ''  '') = Inr [Text (u ''  '') None]"
    by (simp add: inline_eval)
  with h C4_runs_of_nonempty_text_are_nonempty [OF h] show ?thesis by blast
qed

section \<open>Properties of the block compiler\<close>

subsection \<open>Splitting a block, and the pattern of a footnote\<close>

lemma str_split1_contains:
  "str_contains sep s \<Longrightarrow> \<exists>a b. str_split1 sep s = [a, b]"
  by (auto simp: str_contains_def str_split1_def)

lemma split_block_total:
  "str_contains (u ''::'') block \<Longrightarrow> \<exists>ty body. split_block block = Inr (ty, body)"
  using str_split1_contains [of "u ''::''" block] by (auto simp: split_block_def)

lemma greedy_star_class: "greedy_star cl k s = Some (g, r) \<Longrightarrow> list_all cl g"
  by (induction s arbitrary: g) (auto split: option.splits if_splits)

lemma greedy_plus_class: "greedy_plus cl k s = Some (g, r) \<Longrightarrow> g \<noteq> [] \<and> list_all cl g"
  by (cases s) (auto split: if_splits dest: greedy_star_class)

lemma rmatch_Lit_Some:
  "rmatch (Lit c # p) s = Some (n, gs) \<Longrightarrow> \<exists>xs m. s = c # xs \<and> rmatch p xs = Some (m, gs) \<and> n = Suc m"
  by (cases s) (auto split: if_splits)

lemma rmatch_Group_Some:
  "rmatch (Group q cl # p) s = Some (n, gs) \<Longrightarrow>
     \<exists>g m hs. repeat q (in_class cl) (rmatch p) s = Some (g, m, hs) \<and> gs = g # hs \<and> n = length g + m"
  by auto

lemma footnote_re_groups:
  assumes "re_match footnote_re body = Some (st, en, gs)"
  shows "\<exists>d r. gs = [d, r] \<and> d \<noteq> [] \<and> list_all isdecimal d"
proof -
  define rest where "rest = [Lit 93, Rep Star Whitespace, Group Star Dot]"
  have re: "footnote_re = Lit 91 # Group Plus Decimal # rest"
    by (simp add: footnote_re_def lit_def rest_def)
  from assms obtain n where 1: "rmatch (Lit 91 # Group Plus Decimal # rest) body = Some (n, gs)"
    unfolding re_match_def re by auto
  from rmatch_Lit_Some [OF 1] obtain xs m where
    3: "rmatch (Group Plus Decimal # rest) xs = Some (m, gs)" by blast
  from rmatch_Group_Some [OF 3] obtain g k hs where
    2: "greedy_plus (in_class Decimal) (rmatch rest) xs = Some (g, k, hs)" and gs: "gs = g # hs"
    by auto
  from greedy_plus_class [OF 2] have g: "g \<noteq> [] \<and> list_all isdecimal g"
    by (simp add: list_all_iff)
  from greedy_plus_cont [OF 2] obtain s' where "rmatch rest s' = Some (k, hs)" by blast
  from rmatch_ngroups [OF this] have "length hs = 1" by (simp add: rest_def)
  then obtain r where "hs = [r]" by (cases hs) auto
  with gs g show ?thesis by blast
qed

subsection \<open>Which blocks raise\<close>

lemma parse_inline_formatting_not_Inl [simp]: "parse_inline_formatting t \<noteq> Inl e"
  using parse_inline_formatting_total [of t] by auto

lemma list_items_not_Inl [simp]: "list_items items \<noteq> Inl e"
  by (induction items) (auto split: sum.splits)

lemma unpack2_split1_not_Inl [simp]:
  "str_contains sep s \<Longrightarrow> unpack2 (str_split1 sep s) \<noteq> Inl e"
  using str_split1_contains [of sep s] by auto

lemma isdecimal_ascii: "48 \<le> c \<Longrightarrow> c \<le> 57 \<Longrightarrow> isdecimal c"
  by (simp add: isdecimal_def decimal_blocks_def)

lemma heading_level:
  "ty \<in> set (map u [''h1'', ''h2'', ''h3'', ''h4'', ''h5'', ''h6'']) \<Longrightarrow>
     \<exists>c. py_index ty 1 = Inr c \<and> 49 \<le> c \<and> c \<le> 54"
  by (auto simp: u_def py_index_def)

lemma py_int_digit: "48 \<le> c \<Longrightarrow> c \<le> 57 \<Longrightarrow> py_int [c] \<noteq> Inl e"
  by (simp add: py_int_def isdecimal_ascii int_max_str_digits_def)

lemma build_block_Inl:
  assumes "build_block c ty body = Inl e"
  shows "ty = u ''footnote''"
proof (rule ccontr)
  assume n: "ty \<noteq> u ''footnote''"
  show False
  proof (cases "ty \<in> set (map u [''h1'', ''h2'', ''h3'', ''h4'', ''h5'', ''h6''])")
    case True
    from heading_level [OF True] obtain d where d: "py_index ty 1 = Inr d" "49 \<le> d" "d \<le> 54"
      by blast
    then have "py_int [d] \<noteq> Inl e" by (simp add: py_int_digit)
    with assms True d(1) show False
      by (simp add: build_block_def split: if_splits sum.splits)
  next
    case False
    with assms n show False
      by (simp add: build_block_def Let_def split: if_splits sum.splits prod.splits list.splits)
  qed
qed

subsection \<open>The nodes of a block\<close>

lemma parse_inline_formatting_Inr:
  "parse_inline_formatting t = Inr rs \<Longrightarrow> list_all is_run rs"
  using parse_inline_formatting_total [of t] by auto

lemma all_nodes_runs: "list_all is_run rs \<Longrightarrow> concat (map all_nodes rs) = rs"
proof (induction rs)
  case Nil
  then show ?case by simp
next
  case (Cons r rs)
  then show ?case by (cases r) auto
qed

lemma is_run_inner: "list_all is_run rs \<Longrightarrow> r \<in> set rs \<Longrightarrow> is_inner r"
  by (cases r) (auto simp: list_all_iff)

lemma list_items_Inr:
  "list_items items = Inr lis \<Longrightarrow> \<forall>n\<in>set lis. \<forall>m\<in>set (all_nodes n). is_inner m"
proof (induction items arbitrary: lis)
  case Nil
  then show ?case by simp
next
  case (Cons item items)
  from Cons.prems obtain rs rest where
    1: "parse_inline_formatting item = Inr rs" and 2: "list_items items = Inr rest"
    and 3: "lis = Node ''list_item'' None (Some [Node ''paragraph'' None (Some rs)]) # rest"
    by (auto split: sum.splits)
  from parse_inline_formatting_Inr [OF 1] have r: "list_all is_run rs" .
  with 3 Cons.IH [OF 2] show ?case
    by (auto simp: all_nodes_runs dest: is_run_inner)
qed

lemma build_block_footnote:
  "build_block c (u ''footnote'') body =
     (case re_match footnote_re body of
        None \<Rightarrow> Inr ([], c)
      | Some (start, stop, gs) \<Rightarrow>
          (case group gs 1 of Inl e \<Rightarrow> Inl e | Inr digits \<Rightarrow>
            (case py_int digits of Inl e \<Rightarrow> Inl e | Inr num \<Rightarrow>
              (case group gs 2 of Inl e \<Rightarrow> Inl e | Inr text \<Rightarrow>
                 Inr ([Node ''footnote'' (Some [(''number'', VInt num)])
                         (Some [Node ''paragraph'' None (Some [Text text None])])],
                      c)))))"
  by (simp add: build_block_def u_def)

lemma build_block_footnote_match:
  assumes "re_match footnote_re body = Some (st, en, gs)"
  shows "\<exists>d r. gs = [d, r] \<and> build_block c (u ''footnote'') body =
           (if int_max_str_digits < length d then Inl ValueError
            else Inr ([Node ''footnote'' (Some [(''number'', VInt (int (digits_value d)))])
                         (Some [Node ''paragraph'' None (Some [Text r None])])], c))"
proof -
  from footnote_re_groups [OF assms] obtain d r where
    gs: "gs = [d, r]" and d: "d \<noteq> []" "list_all isdecimal d" by blast
  then show ?thesis using assms
    by (simp add: build_block_footnote group_def py_int_def)
qed

subsection \<open>The builder, tag by tag\<close>

text \<open>
  The chain of \<^verbatim>\<open>if\<close> and \<^verbatim>\<open>elif\<close> read as a table: one equation for each type tag,
  and no node for a tag that is not in the table.
\<close>

lemma py_int_ascii: "48 \<le> c \<Longrightarrow> c \<le> 57 \<Longrightarrow> py_int [c] = Inr (int (c - 48))"
  by (simp add: py_int_def isdecimal_ascii int_max_str_digits_def digits_value_def
        decimal_value_def decimal_blocks_def)

lemma build_block_headings:
  "build_block c (u ''title'') body = Inr ([heading 1 body], c)"
  "build_block c (u ''subtitle'') body = Inr ([heading 2 body], c)"
  "build_block c (u ''h1'') body = Inr ([heading 1 body], c)"
  "build_block c (u ''h2'') body = Inr ([heading 2 body], c)"
  "build_block c (u ''h3'') body = Inr ([heading 3 body], c)"
  "build_block c (u ''h4'') body = Inr ([heading 4 body], c)"
  "build_block c (u ''h5'') body = Inr ([heading 5 body], c)"
  "build_block c (u ''h6'') body = Inr ([heading 6 body], c)"
  by (simp_all add: build_block_def u_def heading_def py_index_def py_int_ascii)

lemma build_block_plain:
  "build_block c (u ''quote'') body =
     Inr ([Node ''blockquote'' None
             (Some [Node ''paragraph'' None (Some [Text body None])])], c)"
  "build_block c (u ''pullquote'') body =
     Inr ([Node ''pullquote'' (Some [(''align'', VNone), (''color'', VNone)])
             (Some [Node ''paragraph'' None (Some [Text body None])])], c)"
  "build_block c (u ''rule'') body = Inr ([Node ''horizontal_rule'' None None], c)"
  "build_block c (u ''subscribe'') body = Inr ([button (u ''%%checkout_url%%'') body], c)"
  "build_block c (u ''share'') body = Inr ([button (u ''%%share_url%%'') body], c)"
  "build_block c (u ''comment'') body =
     Inr ([button (u ''%%half_magic_comments_url%%'') body], c)"
  "build_block c (u ''latex'') body = Inr ([latex_node body c], c + 1)"
  "build_block c (u ''break'') body = Inr ([Node ''paragraph'' None None], c)"
  by (simp_all add: build_block_def u_def latex_node_def)

lemma build_block_formatted:
  "build_block c (u ''text'') body =
     (case parse_inline_formatting body of Inl e \<Rightarrow> Inl e | Inr rs \<Rightarrow>
        Inr ([Node ''paragraph'' None (Some rs)], c))"
  "build_block c (u ''list'') body =
     (case list_items (map str_strip
                        (filter (\<lambda>item. str_strip item \<noteq> []) (str_split [8226] body))) of
        Inl e \<Rightarrow> Inl e
      | Inr lis \<Rightarrow> Inr ([Node ''bullet_list'' None (Some lis)], c))"
  "build_block c (u ''numberlist'') body =
     (case list_items (map str_strip
                        (filter (\<lambda>item. str_strip item \<noteq> [])
                           (drop 1 (re_split number_re body)))) of
        Inl e \<Rightarrow> Inl e
      | Inr lis \<Rightarrow>
          Inr ([Node ''ordered_list'' (Some [(''start'', VInt 1), (''order'', VInt 1)])
                  (Some lis)], c))"
  by (simp_all add: build_block_def u_def Let_def)

lemma build_block_code:
  "build_block c (u ''code'') body =
     (case str_split1 [124] body of
        [p0, p1] \<Rightarrow>
          Inr ([Node ''code_block''
                  (Some [(''language'', if str_strip p0 = [] then VNone else VStr (str_strip p0))])
                  (Some [Text (str_strip p1) None])], c)
      | _ \<Rightarrow>
          Inr ([Node ''code_block'' (Some [(''language'', VNone)]) (Some [Text body None])], c))"
  by (simp add: build_block_def u_def split: list.splits)

lemma build_block_split:
  "build_block c (u ''button'') body =
     (case partition_at (u ''->'') body of
        Some (a, b) \<Rightarrow> Inr ([button (str_strip b) (str_strip a)], c)
      | None \<Rightarrow> Inr ([button (u ''#'') body], c))"
  "build_block c (u ''subscribewidget'') body =
     (case partition_at (u ''>>'') body of
        Some (a, b) \<Rightarrow>
          Inr ([Node ''subscribeWidget''
                  (Some [(''url'', VStr (u ''%%checkout_url%%'')), (''text'', VStr (str_strip a)),
                         (''language'', VStr (u ''en''))])
                  (Some [cta_caption (str_strip b)])], c)
      | None \<Rightarrow>
          Inr ([Node ''subscribeWidget''
                  (Some [(''url'', VStr (u ''%%checkout_url%%'')), (''text'', VStr body),
                         (''language'', VStr (u ''en''))])
                  (Some [cta_caption (u ''Subscribe for more content!'')])], c))"
  "build_block c (u ''sharewidget'') body =
     (case partition_at (u ''>>'') body of
        Some (a, b) \<Rightarrow>
          Inr ([Node ''captionedShareButton''
                  (Some [(''url'', VStr (u ''%%share_url%%'')), (''text'', VStr (str_strip a))])
                  (Some [cta_caption (str_strip b)])], c)
      | None \<Rightarrow>
          Inr ([Node ''captionedShareButton''
                  (Some [(''url'', VStr (u ''%%share_url%%'')), (''text'', VStr body)])
                  (Some [cta_caption (u ''Share this post!'')])], c))"
proof -
  show "build_block c (u ''button'') body =
     (case partition_at (u ''->'') body of
        Some (a, b) \<Rightarrow> Inr ([button (str_strip b) (str_strip a)], c)
      | None \<Rightarrow> Inr ([button (u ''#'') body], c))"
    by (cases "partition_at (u ''->'') body")
       (auto simp add: build_block_def str_contains_def str_split1_def u_def)
  show "build_block c (u ''subscribewidget'') body =
     (case partition_at (u ''>>'') body of
        Some (a, b) \<Rightarrow>
          Inr ([Node ''subscribeWidget''
                  (Some [(''url'', VStr (u ''%%checkout_url%%'')), (''text'', VStr (str_strip a)),
                         (''language'', VStr (u ''en''))])
                  (Some [cta_caption (str_strip b)])], c)
      | None \<Rightarrow>
          Inr ([Node ''subscribeWidget''
                  (Some [(''url'', VStr (u ''%%checkout_url%%'')), (''text'', VStr body),
                         (''language'', VStr (u ''en''))])
                  (Some [cta_caption (u ''Subscribe for more content!'')])], c))"
    by (cases "partition_at (u ''>>'') body")
       (auto simp add: build_block_def str_contains_def str_split1_def u_def)
  show "build_block c (u ''sharewidget'') body =
     (case partition_at (u ''>>'') body of
        Some (a, b) \<Rightarrow>
          Inr ([Node ''captionedShareButton''
                  (Some [(''url'', VStr (u ''%%share_url%%'')), (''text'', VStr (str_strip a))])
                  (Some [cta_caption (str_strip b)])], c)
      | None \<Rightarrow>
          Inr ([Node ''captionedShareButton''
                  (Some [(''url'', VStr (u ''%%share_url%%'')), (''text'', VStr body)])
                  (Some [cta_caption (u ''Share this post!'')])], c))"
    by (cases "partition_at (u ''>>'') body")
       (auto simp add: build_block_def str_contains_def str_split1_def u_def)
qed

lemma build_block_unknown:
  "ty \<notin> set (map u block_tags) \<Longrightarrow> build_block c ty body = Inr ([], c)"
  by (simp add: block_tags_def build_block_def)

lemmas build_block_tag =
  build_block_headings build_block_plain build_block_formatted build_block_code
  build_block_split build_block_footnote

lemma block_tags_cases:
  assumes "ty \<in> set (map u block_tags)"
  shows "ty = u ''title'' \<or> ty = u ''subtitle'' \<or> ty = u ''h1'' \<or> ty = u ''h2'' \<or>
         ty = u ''h3'' \<or> ty = u ''h4'' \<or> ty = u ''h5'' \<or> ty = u ''h6'' \<or> ty = u ''text'' \<or>
         ty = u ''quote'' \<or> ty = u ''pullquote'' \<or> ty = u ''list'' \<or> ty = u ''numberlist'' \<or>
         ty = u ''code'' \<or> ty = u ''rule'' \<or> ty = u ''button'' \<or> ty = u ''subscribe'' \<or>
         ty = u ''share'' \<or> ty = u ''comment'' \<or> ty = u ''subscribewidget'' \<or>
         ty = u ''sharewidget'' \<or> ty = u ''latex'' \<or> ty = u ''footnote'' \<or> ty = u ''break''"
  using assms by (simp add: block_tags_def)

lemma build_block_footnote_Inr:
  assumes "build_block c (u ''footnote'') body = Inr (ns, c')"
  shows "c' = c \<and> (ns = [] \<or> (\<exists>num r. ns = [Node ''footnote'' (Some [(''number'', VInt num)])
                         (Some [Node ''paragraph'' None (Some [Text r None])])]))"
proof (cases "re_match footnote_re body")
  case None
  with assms show ?thesis by (simp add: build_block_footnote)
next
  case (Some a)
  obtain st en gs where "a = (st, en, gs)" by (cases a) auto
  with Some build_block_footnote_match [of body st en gs c] assms show ?thesis
    by (auto split: if_splits)
qed

lemma build_block_Inr:
  assumes "build_block c ty body = Inr (ns, c')"
  shows "list_all is_block ns \<and> (\<forall>n\<in>set ns. \<forall>m\<in>set (all_nodes n). m = n \<or> is_inner m)"
proof (cases "ty \<in> set (map u block_tags)")
  case False
  with assms show ?thesis by (simp add: build_block_unknown)
next
  case True
  show ?thesis
  proof (cases "ty = u ''footnote''")
    case True
    with assms build_block_footnote_Inr [of c body ns c'] show ?thesis
      by (auto simp: block_types_def attr_keys_def)
  next
    case False
    with block_tags_cases [OF True] assms show ?thesis
      by (elim disjE)
         (auto simp: build_block_headings build_block_plain build_block_formatted
            build_block_code build_block_split heading_def button_def cta_caption_def
            latex_node_def block_types_def attr_keys_def all_nodes_runs
          split: sum.splits option.splits list.splits
          dest!: parse_inline_formatting_Inr list_items_Inr dest: is_run_inner)
  qed
qed

subsection \<open>The loop over the blocks\<close>

lemma build_block_block_ok:
  "build_block c ty body = Inr (ns, c') \<Longrightarrow> list_all block_ok ns"
  using build_block_Inr [of c ty body ns c'] by (auto simp: block_ok_def list_all_iff)

lemma re_match_footnote_Nil [simp]: "re_match footnote_re [] = None"
  by (simp add: re_match_def footnote_re_def lit_def)

lemma footnote_digits_pos:
  assumes "0 < footnote_digits block"
  shows "\<exists>body st en d r. str_contains (u ''::'') block \<and>
           split_block block = Inr (u ''footnote'', body) \<and> body \<noteq> [] \<and>
           re_match footnote_re body = Some (st, en, [d, r]) \<and> footnote_digits block = length d"
proof -
  from assms have 1: "str_contains (u ''::'') block"
    by (auto simp: footnote_digits_def split: if_splits)
  from split_block_total [OF 1] obtain ty body where 2: "split_block block = Inr (ty, body)"
    by blast
  from assms 1 2 have 3: "ty = u ''footnote''"
    by (auto simp: footnote_digits_def split: if_splits)
  from assms 1 2 3 obtain st en gs where 4: "re_match footnote_re body = Some (st, en, gs)"
    by (cases "re_match footnote_re body") (auto simp: footnote_digits_def)
  from footnote_re_groups [OF 4] obtain d r where 5: "gs = [d, r]" by blast
  from 4 have "body \<noteq> []" by auto
  with 1 2 3 4 5 show ?thesis by (auto simp: footnote_digits_def)
qed

lemma process_block_overlong:
  assumes "int_max_str_digits < footnote_digits block"
  shows "process_block (cont, c) block = Inl ValueError"
proof -
  from assms have "0 < footnote_digits block" by simp
  from footnote_digits_pos [OF this] obtain body st en d r where
    1: "str_contains (u ''::'') block" and 2: "split_block block = Inr (u ''footnote'', body)"
    and 3: "body \<noteq> []" and 4: "re_match footnote_re body = Some (st, en, [d, r])"
    and 5: "footnote_digits block = length d" by blast
  from build_block_footnote_match [OF 4, of c] assms 5
  have "build_block c (u ''footnote'') body = Inl ValueError" by simp
  with 1 2 3 show ?thesis by simp
qed

lemma process_block_Inl:
  assumes "process_block (cont, c) block = Inl e"
  shows "e = ValueError \<and> int_max_str_digits < footnote_digits block"
proof -
  from assms have 1: "str_contains (u ''::'') block"
    by (auto split: if_splits sum.splits)
  from split_block_total [OF 1] obtain ty body where 2: "split_block block = Inr (ty, body)"
    by blast
  from assms 1 2 have 3: "body \<noteq> []" and 4: "build_block c ty body = Inl e"
    by (auto split: if_splits sum.splits)
  from build_block_Inl [OF 4] have ty: "ty = u ''footnote''" .
  from 4 ty obtain st en gs where 5: "re_match footnote_re body = Some (st, en, gs)"
    by (cases "re_match footnote_re body") (auto simp: build_block_footnote)
  from build_block_footnote_match [OF 5, of c] 4 ty obtain d r where
    6: "gs = [d, r]" and 7: "int_max_str_digits < length d" and 8: "e = ValueError"
    by (auto split: if_splits)
  from 1 2 ty 5 6 have "footnote_digits block = length d"
    by (simp add: footnote_digits_def)
  with 7 8 show ?thesis by simp
qed

lemma is_run_imp_inner: "is_run r \<Longrightarrow> is_inner r"
  by (cases r) auto

lemma process_block_Inr:
  assumes "process_block (cont, c) block = Inr (cont', c')"
  shows "\<exists>new. cont' = cont @ new \<and> list_all block_ok new"
proof (cases "str_contains (u ''::'') block")
  case False
  with assms obtain rs where "parse_inline_formatting block = Inr rs"
    and "cont' = cont @ [Node ''paragraph'' None (Some rs)]"
    by (auto split: sum.splits)
  with parse_inline_formatting_Inr [of block rs] show ?thesis
    by (auto simp: block_ok_def block_types_def attr_keys_def all_nodes_runs list_all_iff
          dest: is_run_imp_inner)
next
  case True
  from split_block_total [OF True] obtain ty body where 2: "split_block block = Inr (ty, body)"
    by blast
  show ?thesis
  proof (cases "body = []")
    case True
    with assms \<open>str_contains (u ''::'') block\<close> 2 show ?thesis by simp
  next
    case False
    with assms True 2 obtain new where "build_block c ty body = Inr (new, c')"
      and "cont' = cont @ new"
      by (auto split: sum.splits)
    with build_block_block_ok show ?thesis by blast
  qed
qed

lemma process_blocks_Inr:
  "process_blocks (cont, c) blocks = Inr (cont', c') \<Longrightarrow>
     \<exists>new. cont' = cont @ new \<and> list_all block_ok new"
proof (induction blocks arbitrary: cont c)
  case Nil
  then show ?case by simp
next
  case (Cons b blocks)
  from Cons.prems obtain cont1 c1 where 1: "process_block (cont, c) b = Inr (cont1, c1)"
    and 2: "process_blocks (cont1, c1) blocks = Inr (cont', c')"
    by (auto split: sum.splits)
  from process_block_Inr [OF 1] Cons.IH [OF 2] show ?case by auto
qed

lemma process_blocks_Inl:
  "process_blocks (cont, c) blocks = Inl e \<Longrightarrow>
     e = ValueError \<and> (\<exists>b\<in>set blocks. int_max_str_digits < footnote_digits b)"
proof (induction blocks arbitrary: cont c)
  case Nil
  then show ?case by simp
next
  case (Cons b blocks)
  show ?case
  proof (cases "process_block (cont, c) b")
    case (Inl e')
    with Cons.prems process_block_Inl [of cont c b e'] show ?thesis by simp
  next
    case (Inr st)
    obtain cont1 c1 where "st = (cont1, c1)" by (cases st) auto
    with Inr Cons.prems Cons.IH [of cont1 c1] show ?thesis by simp
  qed
qed

lemma process_blocks_overlong:
  "\<exists>b\<in>set blocks. int_max_str_digits < footnote_digits b \<Longrightarrow>
     process_blocks (cont, c) blocks = Inl ValueError"
proof (induction blocks arbitrary: cont c)
  case Nil
  then show ?case by simp
next
  case (Cons b blocks)
  show ?case
  proof (cases "process_block (cont, c) b")
    case (Inl e')
    with process_block_Inl [of cont c b e'] show ?thesis by simp
  next
    case (Inr st)
    obtain cont1 c1 where st: "st = (cont1, c1)" by (cases st) auto
    from Inr process_block_overlong [of b cont c] have "\<not> int_max_str_digits < footnote_digits b"
      by auto
    with Cons.prems have "\<exists>b\<in>set blocks. int_max_str_digits < footnote_digits b" by auto
    from Cons.IH [OF this, of cont1 c1] Inr st show ?thesis by simp
  qed
qed

lemma block_ok_well_formed:
  "list_all block_ok ns \<Longrightarrow> well_formed_document (Node ''doc'' None (Some ns))"
proof -
  assume a: "list_all block_ok ns"
  have "\<not> has_type ''doc'' m" if "n \<in> set ns" and "m \<in> set (all_nodes n)" for n m
  proof -
    from a that have "is_block n" and "m = n \<or> is_inner m"
      by (auto simp: block_ok_def list_all_iff)
    then show ?thesis
      by (cases n; cases m) (auto simp: block_types_def)
  qed
  with a show ?thesis
    by (auto simp: well_formed_document_def block_ok_def list_all_iff)
qed

text \<open>
  Claim C1, as the code has it. For every string, so for the empty string, for a string
  with no bar and for one with no \<^verbatim>\<open>::\<close>, in which no footnote block has a bracketed
  number of more than 4300 digits, \<^verbatim>\<open>parse_markup_to_json\<close> raises nothing and returns a
  well-formed document. The blocks are those of the text in which the semicolons have been
  replaced, as in lines 55 and 58.
\<close>

theorem C1_total_below_the_digit_limit:
  assumes "\<forall>b\<in>set (blocks_of (str_replace 59 44 s)). footnote_digits b \<le> int_max_str_digits"
  shows "\<exists>d. parse_markup_to_json s = Inr d \<and> well_formed_document d"
proof (cases "process_blocks ([], 1) (blocks_of (str_replace 59 44 s))")
  case (Inl e)
  from process_blocks_Inl [OF Inl] assms show ?thesis by (auto simp: not_less [symmetric])
next
  case (Inr st)
  obtain ns c where st: "st = (ns, c)" by (cases st) auto
  from process_blocks_Inr [of "[]" 1 _ ns c] Inr st have "list_all block_ok ns" by auto
  from block_ok_well_formed [OF this] Inr st show ?thesis
    by (simp add: parse_markup_to_json_def)
qed

subsection \<open>The compiler on given markup\<close>

text \<open>The definitions that evaluate the compiler on a given markup.\<close>

lemmas block_eval =
  parse_markup_to_json_def blocks_of_def str_replace_def str_split.simps str_contains_def
  split_block_def str_split1_def str_lower_def lower_char_def build_block_def
  re_match_def footnote_re_def

subsection \<open>Totality, and the one input class that raises\<close>

lemma greedy_star_all:
  "list_all cl ds \<Longrightarrow> \<not> cl c \<Longrightarrow> k (c # rest) = Some r \<Longrightarrow>
     greedy_star cl k (ds @ c # rest) = Some (ds, r)"
  by (induction ds) auto

lemma greedy_plus_all:
  "list_all cl ds \<Longrightarrow> ds \<noteq> [] \<Longrightarrow> \<not> cl c \<Longrightarrow> k (c # rest) = Some r \<Longrightarrow>
     greedy_plus cl k (ds @ c # rest) = Some (ds, r)"
  by (cases ds) (auto simp: greedy_star_all)

lemma partition_at_single_None: "c \<notin> set s \<Longrightarrow> partition_at [c] s = None"
  by (induction s) auto

lemma str_split_single_None: "c \<notin> set s \<Longrightarrow> str_split [c] s = [s]"
  by (simp add: str_split.simps partition_at_single_None)

lemma not_isdecimal_ascii: "c < 48 \<or> (57 < c \<and> c < 1632) \<Longrightarrow> \<not> isdecimal c"
  by (auto simp: isdecimal_def decimal_blocks_def)

lemma footnote_bracketed:
  assumes "list_all isdecimal ds" and "ds \<noteq> []"
  shows "re_match footnote_re (91 # ds @ [93]) = Some (0, length ds + 2, [ds, []])"
proof -
  have "\<not> in_class Decimal 93" by (simp add: not_isdecimal_ascii)
  moreover have "rmatch [Lit 93, Rep Star Whitespace, Group Star Dot] [93] = Some (1, [[]])"
    by simp
  moreover from assms(1) have "list_all (in_class Decimal) ds" by (simp add: list_all_iff)
  ultimately have
    "greedy_plus (in_class Decimal) (rmatch [Lit 93, Rep Star Whitespace, Group Star Dot])
       (ds @ [93]) = Some (ds, 1, [[]])"
    using assms(2) by (simp add: greedy_plus_all)
  then show ?thesis
    by (simp add: re_match_def footnote_re_def lit_def)
qed

lemma overlong_footnote_block:
  assumes "list_all isdecimal ds" and "ds \<noteq> []"
  shows "blocks_of (str_replace 59 44 (u ''Footnote:: ['' @ ds @ u '']'')) =
           [u ''Footnote:: ['' @ ds @ u '']'']"
    and "footnote_digits (u ''Footnote:: ['' @ ds @ u '']'') = length ds"
proof -
  from assms(1) have d: "\<And>c. c \<in> set ds \<Longrightarrow> isdecimal c" by (simp add: list_all_iff)
  have n59: "59 \<notin> set ds" and n124: "124 \<notin> set ds"
    using d not_isdecimal_ascii [of 59] not_isdecimal_ascii [of 124] by auto
  have 1: "str_replace 59 44 (u ''Footnote:: ['' @ ds @ u '']'') = u ''Footnote:: ['' @ ds @ u '']''"
  proof -
    from n59 have "map (\<lambda>c. if c = 59 then 44 else c) ds = ds"
      by (induction ds) auto
    then show ?thesis by (simp add: str_replace_def u_def)
  qed
  have 2: "str_split [124] (u ''Footnote:: ['' @ ds @ u '']'') = [u ''Footnote:: ['' @ ds @ u '']'']"
    using n124 by (simp add: str_split_single_None u_def)
  have 3: "str_strip (u ''Footnote:: ['' @ ds @ u '']'') = u ''Footnote:: ['' @ ds @ u '']''"
    by (simp add: str_strip_def u_def isspace_def)
  show "blocks_of (str_replace 59 44 (u ''Footnote:: ['' @ ds @ u '']'')) =
           [u ''Footnote:: ['' @ ds @ u '']'']"
    unfolding 1 blocks_of_def 2 using 3 by (simp add: u_def)
  have 4: "partition_at (u ''::'') (u ''Footnote:: ['' @ ds @ u '']'') =
             Some (u ''Footnote'', 32 # 91 # ds @ [93])"
    by (simp add: u_def)
  have 5: "str_strip (32 # 91 # ds @ [93]) = 91 # ds @ [93]"
    by (simp add: str_strip_def isspace_def)
  have 6: "str_lower (str_strip (u ''Footnote'')) = u ''footnote''"
    by (simp add: str_strip_def isspace_def str_lower_def lower_char_def u_def)
  have 7: "split_block (u ''Footnote:: ['' @ ds @ u '']'') = Inr (u ''footnote'', 91 # ds @ [93])"
    by (simp add: split_block_def str_split1_def 4 5 6)
  show "footnote_digits (u ''Footnote:: ['' @ ds @ u '']'') = length ds"
    by (simp add: footnote_digits_def str_contains_def 4 7 footnote_bracketed [OF assms])
qed

lemma overlong_footnote_raises:
  assumes "list_all isdecimal ds" and "int_max_str_digits < length ds"
  shows "parse_markup_to_json (u ''Footnote:: ['' @ ds @ u '']'') = Inl ValueError"
proof -
  from assms(2) have "ds \<noteq> []" by auto
  from overlong_footnote_block [OF assms(1) this] assms(2)
  have "\<exists>b\<in>set (blocks_of (str_replace 59 44 (u ''Footnote:: ['' @ ds @ u '']''))).
           int_max_str_digits < footnote_digits b" by simp
  from process_blocks_overlong [OF this] show ?thesis
    by (simp add: parse_markup_to_json_def)
qed

text \<open>
  Claim C1 as stated fails. The markup is \<^verbatim>\<open>Footnote:: [\<close>, 4301 times the digit
  \<^verbatim>\<open>1\<close>, and \<^verbatim>\<open>]\<close>. It is one footnote block, the pattern of line 290 matches its
  content, and \<^verbatim>\<open>int(match.group(1))\<close> of line 292 raises \<^verbatim>\<open>ValueError\<close>, since the
  group has more than 4300 digits. The caller \<^verbatim>\<open>create_markup_draft_enhanced\<close> of
  \<^verbatim>\<open>drafts.py\<close> calls the compiler inside \<^verbatim>\<open>try\<close> and catches \<^verbatim>\<open>Exception\<close>.
\<close>

theorem C1_counterexample:
  "parse_markup_to_json (u ''Footnote:: ['' @ replicate 4301 49 @ u '']'') = Inl ValueError"
proof -
  have "list_all isdecimal (replicate 4301 49)"
    by (simp add: list_all_iff isdecimal_ascii)
  moreover have "int_max_str_digits < length (replicate 4301 (49::nat))"
    by (simp add: int_max_str_digits_def)
  ultimately show ?thesis by (rule overlong_footnote_raises)
qed

text \<open>
  An instance: a markup with a footnote block, whose number has two digits, and a heading.
\<close>

theorem C1_witness:
  "\<exists>d. parse_markup_to_json (u ''Footnote:: [12] a | H2:: b'') = Inr d \<and>
       well_formed_document d"
proof -
  have h: "\<forall>b\<in>set (blocks_of (str_replace 59 44 (u ''Footnote:: [12] a | H2:: b''))).
       footnote_digits b \<le> int_max_str_digits"
    by (simp add: block_eval inline_eval footnote_digits_def isdecimal_def decimal_blocks_def
          int_max_str_digits_def)
  from C1_total_below_the_digit_limit [OF h] show ?thesis .
qed

subsection \<open>Blocks that are dropped\<close>

lemma greedy_star_split:
  "greedy_star cl k s = Some (g, r) \<Longrightarrow> \<exists>s'. s = g @ s' \<and> k s' = Some r"
  by (induction s arbitrary: g) (auto split: option.splits if_splits)

lemma greedy_plus_split:
  "greedy_plus cl k s = Some (g, r) \<Longrightarrow> \<exists>s'. s = g @ s' \<and> k s' = Some r"
  by (cases s) (auto split: if_splits dest: greedy_star_split)

lemma footnote_re_shape:
  assumes "re_match footnote_re body = Some (st, en, gs)"
  shows "\<exists>ds rest. ds \<noteq> [] \<and> list_all isdecimal ds \<and> body = 91 # ds @ 93 # rest"
proof -
  define rest where "rest = [Rep Star Whitespace, Group Star Dot]"
  have re: "footnote_re = Lit 91 # Group Plus Decimal # Lit 93 # rest"
    by (simp add: footnote_re_def lit_def rest_def)
  from assms obtain n where 1: "rmatch (Lit 91 # Group Plus Decimal # Lit 93 # rest) body = Some (n, gs)"
    unfolding re_match_def re by auto
  from rmatch_Lit_Some [OF 1] obtain xs m where
    b: "body = 91 # xs" and 3: "rmatch (Group Plus Decimal # Lit 93 # rest) xs = Some (m, gs)"
    by blast
  from rmatch_Group_Some [OF 3] obtain g k hs where
    2: "greedy_plus (in_class Decimal) (rmatch (Lit 93 # rest)) xs = Some (g, k, hs)"
    by auto
  from greedy_plus_class [OF 2] have g: "g \<noteq> [] \<and> list_all isdecimal g"
    by (simp add: list_all_iff)
  from greedy_plus_split [OF 2] obtain s' where
    xs: "xs = g @ s'" and 4: "rmatch (Lit 93 # rest) s' = Some (k, hs)" by blast
  from rmatch_Lit_Some [OF 4] obtain tl where "s' = 93 # tl" by blast
  with b xs g show ?thesis by blast
qed

text \<open>
  Claim C6. A footnote block is a block that has \<^verbatim>\<open>::\<close> and whose type, stripped and
  lowered, is \<^verbatim>\<open>footnote\<close>. When its content does not start with \<^verbatim>\<open>[\<close>, one or more
  decimal digits and \<^verbatim>\<open>]\<close>, an iteration of the loop on this block returns the state it
  was given: no node is appended, the counter is unchanged and nothing is raised. And
  \<^verbatim>\<open>parse_markup_to_json("Footnote:: not-bracketed")\<close> returns a document with no children.
\<close>

theorem C6_unbracketed_footnote_dropped:
  "(str_contains (u ''::'') block \<and> split_block block = Inr (u ''footnote'', body) \<and>
    \<not> (\<exists>ds rest. ds \<noteq> [] \<and> list_all isdecimal ds \<and> body = 91 # ds @ 93 # rest)
    \<longrightarrow> process_block st block = Inr st) \<and>
   parse_markup_to_json (u ''Footnote:: not-bracketed'') = Inr (Node ''doc'' None (Some []))"
proof -
  have "process_block st block = Inr st"
    if 1: "str_contains (u ''::'') block" and 2: "split_block block = Inr (u ''footnote'', body)"
      and 3: "\<not> (\<exists>ds rest. ds \<noteq> [] \<and> list_all isdecimal ds \<and> body = 91 # ds @ 93 # rest)"
  proof -
    have "re_match footnote_re body = None"
    proof (cases "re_match footnote_re body")
      case None
      then show ?thesis .
    next
      case (Some a)
      obtain s e gs where "a = (s, e, gs)" by (cases a) auto
      with Some footnote_re_shape [of body s e gs] 3 show ?thesis by blast
    qed
    then have "build_block c (u ''footnote'') body = Inr ([], c)" for c
      by (simp add: build_block_footnote)
    with 1 2 show ?thesis by (cases st) simp
  qed
  moreover have
    "parse_markup_to_json (u ''Footnote:: not-bracketed'') = Inr (Node ''doc'' None (Some []))"
    by (simp add: block_eval inline_eval)
  ultimately show ?thesis by blast
qed

text \<open>
  An instance: the block \<^verbatim>\<open>Footnote:: not-bracketed\<close> itself.
\<close>

theorem C6_witness:
  "str_contains (u ''::'') (u ''Footnote:: not-bracketed'') \<and>
   split_block (u ''Footnote:: not-bracketed'') = Inr (u ''footnote'', u ''not-bracketed'') \<and>
   \<not> (\<exists>ds rest. ds \<noteq> [] \<and> list_all isdecimal ds \<and> u ''not-bracketed'' = 91 # ds @ 93 # rest) \<and>
   process_block ([], 1) (u ''Footnote:: not-bracketed'') = Inr ([], 1)"
proof -
  have 1: "str_contains (u ''::'') (u ''Footnote:: not-bracketed'')"
    by (simp add: str_contains_def u_def)
  have 2: "split_block (u ''Footnote:: not-bracketed'') = Inr (u ''footnote'', u ''not-bracketed'')"
    by (simp add: split_block_def str_split1_def str_strip_def isspace_def str_lower_def
          lower_char_def u_def)
  have 3: "\<not> (\<exists>ds rest. ds \<noteq> [] \<and> list_all isdecimal ds \<and>
                u ''not-bracketed'' = 91 # ds @ 93 # rest)"
    by (simp add: u_def)
  from C6_unbracketed_footnote_dropped
         [of "u ''Footnote:: not-bracketed''" "u ''not-bracketed''" "([], 1)"] 1 2 3
  show ?thesis by blast
qed

text \<open>
  Claim C5. \<^verbatim>\<open>parse_markup_to_json("Text:: |  | Text:: x")\<close> returns what
  \<^verbatim>\<open>parse_markup_to_json("Text:: x")\<close> returns, a document whose only child is a paragraph
  with the single run \<^verbatim>\<open>x\<close>. And for every block that has \<^verbatim>\<open>::\<close> and whose content is
  empty after stripping, an iteration of the loop returns the state it was given.
\<close>

theorem C5_empty_blocks_are_dropped:
  "parse_markup_to_json (u ''Text:: |  | Text:: x'') = parse_markup_to_json (u ''Text:: x'') \<and>
   parse_markup_to_json (u ''Text:: x'') =
     Inr (Node ''doc'' None (Some [Node ''paragraph'' None (Some [Text (u ''x'') None])])) \<and>
   (str_contains (u ''::'') block \<and> split_block block = Inr (ty, []) \<longrightarrow>
      process_block st block = Inr st)"
proof -
  have "parse_markup_to_json (u ''Text:: |  | Text:: x'') =
     Inr (Node ''doc'' None (Some [Node ''paragraph'' None (Some [Text (u ''x'') None])]))"
    by (simp add: block_eval inline_eval)
  moreover have "parse_markup_to_json (u ''Text:: x'') =
     Inr (Node ''doc'' None (Some [Node ''paragraph'' None (Some [Text (u ''x'') None])]))"
    by (simp add: block_eval inline_eval)
  moreover have "process_block st block = Inr st"
    if "str_contains (u ''::'') block" and "split_block block = Inr (ty, [])"
    using that by (cases st) simp
  ultimately show ?thesis by simp
qed

text \<open>
  An instance: the block \<^verbatim>\<open>Text::\<close>, the first block of the markup of the claim.
\<close>

theorem C5_witness:
  "str_contains (u ''::'') (u ''Text::'') \<and> split_block (u ''Text::'') = Inr (u ''text'', []) \<and>
   process_block ([], 1) (u ''Text::'') = Inr ([], 1)"
proof -
  have 1: "str_contains (u ''::'') (u ''Text::'')"
    by (simp add: str_contains_def u_def)
  have 2: "split_block (u ''Text::'') = Inr (u ''text'', [])"
    by (simp add: split_block_def str_split1_def str_strip_def isspace_def str_lower_def
          lower_char_def u_def)
  from C5_empty_blocks_are_dropped [of "u ''Text::''" "u ''text''" "([], 1)"] 1 2
  show ?thesis by blast
qed

subsection \<open>The equation counter\<close>

lemma build_block_not_latex:
  assumes "build_block c ty body = Inr (ns, c')" and "ty \<noteq> u ''latex''"
  shows "c' = c \<and> filter (has_type ''latex_block'') ns = []"
proof (cases "ty \<in> set (map u block_tags)")
  case False
  with assms show ?thesis by (simp add: build_block_unknown)
next
  case True
  show ?thesis
  proof (cases "ty = u ''footnote''")
    case True
    with assms build_block_footnote_Inr [of c body ns c'] show ?thesis by auto
  next
    case False
    with block_tags_cases [OF True] assms show ?thesis
      by (elim disjE)
         (auto simp: build_block_headings build_block_plain build_block_formatted
            build_block_code build_block_split heading_def button_def
          split: sum.splits option.splits list.splits)
  qed
qed

lemma process_block_latex:
  assumes "is_latex_block b"
  shows "process_block (cont, c) b = Inr (cont @ [latex_node (latex_body b) c], c + 1)"
proof -
  from assms have 1: "str_contains (u ''::'') b" by (simp add: is_latex_block_def)
  from split_block_total [OF 1] obtain ty body where 2: "split_block b = Inr (ty, body)"
    by blast
  with assms have "ty = u ''latex''" and "body \<noteq> []" and "latex_body b = body"
    by (simp_all add: is_latex_block_def latex_body_def)
  with 1 2 show ?thesis by (simp add: build_block_plain)
qed

lemma process_block_not_latex:
  assumes "process_block (cont, c) b = Inr (cont', c')" and "\<not> is_latex_block b"
  shows "c' = c \<and> filter (has_type ''latex_block'') cont' = filter (has_type ''latex_block'') cont"
proof (cases "str_contains (u ''::'') b")
  case False
  with assms(1) show ?thesis by (auto split: sum.splits)
next
  case True
  from split_block_total [OF True] obtain ty body where 2: "split_block b = Inr (ty, body)"
    by blast
  show ?thesis
  proof (cases "body = []")
    case True
    with assms(1) \<open>str_contains (u ''::'') b\<close> 2 show ?thesis by simp
  next
    case False
    with assms(2) True 2 have ty: "ty \<noteq> u ''latex''" by (simp add: is_latex_block_def)
    from False assms(1) True 2 obtain new where 3: "build_block c ty body = Inr (new, c')"
      and 4: "cont' = cont @ new"
      by (auto split: sum.splits)
    from build_block_not_latex [OF 3 ty] 4 show ?thesis by simp
  qed
qed

lemma process_blocks_latex:
  "process_blocks (cont, int k) blocks = Inr (cont', c') \<Longrightarrow>
     filter (has_type ''latex_block'') cont' =
       filter (has_type ''latex_block'') cont @
       map (\<lambda>(n, b). latex_node (latex_body b) (int n))
         (enumerate k (filter is_latex_block blocks))"
proof (induction blocks arbitrary: cont k)
  case Nil
  then show ?case by simp
next
  case (Cons b blocks)
  show ?case
  proof (cases "is_latex_block b")
    case True
    from process_block_latex [OF True, of cont "int k"] Cons.prems
    have "process_blocks (cont @ [latex_node (latex_body b) (int k)], int (Suc k)) blocks =
            Inr (cont', c')"
      by (simp add: add.commute)
    from Cons.IH [OF this] True show ?thesis by (simp add: latex_node_def)
  next
    case False
    from Cons.prems obtain cont1 c1 where 1: "process_block (cont, int k) b = Inr (cont1, c1)"
      and 2: "process_blocks (cont1, c1) blocks = Inr (cont', c')"
      by (auto split: sum.splits)
    from process_block_not_latex [OF 1 False] have 3: "c1 = int k"
      and 4: "filter (has_type ''latex_block'') cont1 = filter (has_type ''latex_block'') cont"
      by simp_all
    from Cons.IH [of cont1 k] 2 3 4 False show ?thesis by simp
  qed
qed

text \<open>
  Claim C7. When \<^verbatim>\<open>parse_markup_to_json\<close> returns a document, its latex nodes, in order,
  are the nodes of the latex blocks of the markup, in order, and the node of the k-th of
  them, counted from 1, has the id \<^verbatim>\<open>EQUATION_k\<close> and the content of that block as its
  expression. So the counter starts at 1 in every call, a latex block increments it once
  and no other block, a footnote block included, changes it.
\<close>

theorem C7_equation_ids_count_latex_blocks:
  assumes "parse_markup_to_json s = Inr (Node ''doc'' None (Some ns))"
  shows "filter (has_type ''latex_block'') ns =
           map (\<lambda>(k, b).
                  Node ''latex_block''
                    (Some [(''persistentExpression'', VStr (latex_body b)),
                           (''id'', VStr (u ''EQUATION_'' @ py_str (int k)))])
                    None)
             (enumerate 1 (filter is_latex_block (blocks_of (str_replace 59 44 s))))"
proof -
  from assms obtain c where
    "process_blocks ([], int 1) (blocks_of (str_replace 59 44 s)) = Inr (ns, c)"
    by (auto simp: parse_markup_to_json_def split: sum.splits)
  from process_blocks_latex [OF this] show ?thesis by (simp add: latex_node_def)
qed

text \<open>
  An instance: two latex blocks with a footnote block between them get the ids
  \<^verbatim>\<open>EQUATION_1\<close> and \<^verbatim>\<open>EQUATION_2\<close>.
\<close>

theorem C7_witness:
  "parse_markup_to_json (u ''LaTeX:: a | Footnote:: [1] f | latex:: b'') =
     Inr (Node ''doc'' None
            (Some [Node ''latex_block''
                     (Some [(''persistentExpression'', VStr (u ''a'')),
                            (''id'', VStr (u ''EQUATION_1''))]) None,
                   Node ''footnote'' (Some [(''number'', VInt 1)])
                     (Some [Node ''paragraph'' None (Some [Text (u ''f'') None])]),
                   Node ''latex_block''
                     (Some [(''persistentExpression'', VStr (u ''b'')),
                            (''id'', VStr (u ''EQUATION_2''))]) None])) \<and>
   filter (has_type ''latex_block'')
     [Node ''latex_block''
        (Some [(''persistentExpression'', VStr (u ''a'')), (''id'', VStr (u ''EQUATION_1''))])
        None,
      Node ''footnote'' (Some [(''number'', VInt 1)])
        (Some [Node ''paragraph'' None (Some [Text (u ''f'') None])]),
      Node ''latex_block''
        (Some [(''persistentExpression'', VStr (u ''b'')), (''id'', VStr (u ''EQUATION_2''))])
        None] =
   map (\<lambda>(k, b).
          Node ''latex_block''
            (Some [(''persistentExpression'', VStr (latex_body b)),
                   (''id'', VStr (u ''EQUATION_'' @ py_str (int k)))])
            None)
     (enumerate 1 (filter is_latex_block
        (blocks_of (str_replace 59 44 (u ''LaTeX:: a | Footnote:: [1] f | latex:: b'')))))"
proof -
  have h: "parse_markup_to_json (u ''LaTeX:: a | Footnote:: [1] f | latex:: b'') =
     Inr (Node ''doc'' None
            (Some [Node ''latex_block''
                     (Some [(''persistentExpression'', VStr (u ''a'')),
                            (''id'', VStr (u ''EQUATION_1''))]) None,
                   Node ''footnote'' (Some [(''number'', VInt 1)])
                     (Some [Node ''paragraph'' None (Some [Text (u ''f'') None])]),
                   Node ''latex_block''
                     (Some [(''persistentExpression'', VStr (u ''b'')),
                            (''id'', VStr (u ''EQUATION_2''))]) None]))"
    by (simp add: block_eval inline_eval isdecimal_def decimal_blocks_def py_int_def
          int_max_str_digits_def digits_value_def decimal_value_def py_str_def
          digits_of_nat.simps)
  from h C7_equation_ids_count_latex_blocks [OF h] show ?thesis by blast
qed

subsection \<open>Code blocks\<close>

lemma partition_at_pieces:
  "partition_at sep s = Some (a, b) \<Longrightarrow> set a \<subseteq> set s \<and> set b \<subseteq> set s"
proof (induction s arbitrary: a)
  case Nil
  then show ?case by (auto split: if_splits)
next
  case (Cons x xs)
  show ?case
  proof (cases "prefix sep (x # xs)")
    case True
    with Cons.prems have "a = []" and "b = drop (length sep) (x # xs)" by auto
    then show ?thesis using set_drop_subset [of "length sep" "x # xs"] by simp
  next
    case False
    with Cons.prems obtain a' where "partition_at sep xs = Some (a', b)" and "a = x # a'"
      by (auto split: option.splits)
    with Cons.IH [of a'] show ?thesis by auto
  qed
qed

lemma partition_at_single_before:
  "partition_at [c] s = Some (a, b) \<Longrightarrow> c \<notin> set a"
proof (induction s arbitrary: a)
  case Nil
  then show ?case by simp
next
  case (Cons x xs)
  then show ?case by (auto split: if_splits option.splits)
qed

lemma partition_at_single_Some: "partition_at [c] s = None \<Longrightarrow> c \<notin> set s"
  by (induction s) (auto split: if_splits option.splits)

lemma str_split_single_pieces: "p \<in> set (str_split [c] s) \<Longrightarrow> c \<notin> set p"
proof (induction s arbitrary: p rule: length_induct)
  case (1 s)
  show ?case
  proof (cases "partition_at [c] s")
    case None
    with "1.prems" have "p = s" by (simp add: str_split.simps)
    with partition_at_single_Some [OF None] show ?thesis by simp
  next
    case (Some ab)
    obtain a b where ab: "ab = (a, b)" by (cases ab) auto
    from Some ab have part: "partition_at [c] s = Some (a, b)" by simp
    from part "1.prems" have "p = a \<or> p \<in> set (str_split [c] b)"
      by (simp add: str_split.simps)
    then show ?thesis
    proof
      assume "p = a"
      with partition_at_single_before [OF part] show ?thesis by simp
    next
      assume p: "p \<in> set (str_split [c] b)"
      from partition_at_shorter [OF part] have "length b < length s" by simp
      with "1.IH" p show ?thesis by blast
    qed
  qed
qed

lemma set_str_strip: "set (str_strip s) \<subseteq> set s"
proof -
  have "set (dropWhile isspace (rev (dropWhile isspace s))) \<subseteq> set (rev (dropWhile isspace s))"
    by (rule set_dropWhileD [THEN subsetI])
  also have "\<dots> \<subseteq> set s" using set_dropWhileD [of _ isspace s] by auto
  finally show ?thesis by (simp add: str_strip_def)
qed

lemma blocks_of_no_bar: "b \<in> set (blocks_of s) \<Longrightarrow> 124 \<notin> set b"
  using set_str_strip str_split_single_pieces [of _ 124 s]
  by (fastforce simp: blocks_of_def)

lemma split_block_content:
  assumes "split_block block = Inr (ty, body)"
  shows "set body \<subseteq> set block"
proof -
  from assms obtain a b where 1: "str_split1 (u ''::'') block = [a, b]" and 2: "body = str_strip b"
    by (auto simp: split_block_def split: sum.splits elim: unpack2.elims)
  from 1 have "partition_at (u ''::'') block = Some (a, b)"
    by (auto simp: str_split1_def split: option.splits)
  from partition_at_pieces [OF this] 2 set_str_strip [of b] show ?thesis by auto
qed

lemma build_block_language:
  assumes "build_block c ty body = Inr (ns, c')" and "124 \<notin> set body"
  shows "list_all language_none ns"
proof (cases "ty \<in> set (map u block_tags)")
  case False
  with assms show ?thesis by (simp add: build_block_unknown)
next
  case True
  show ?thesis
  proof (cases "ty = u ''footnote''")
    case True
    with assms build_block_footnote_Inr [of c body ns c'] show ?thesis
      by (auto simp: language_none_def)
  next
    case False
    from assms(2) have "str_split1 [124] body = [body]"
      by (simp add: str_split1_def partition_at_single_None)
    with False block_tags_cases [OF True] assms(1) show ?thesis
      by (elim disjE)
         (auto simp: build_block_headings build_block_plain build_block_formatted
            build_block_code build_block_split heading_def button_def latex_node_def
            language_none_def
          split: sum.splits option.splits)
  qed
qed

lemma inner_language_none: "is_inner m \<Longrightarrow> language_none m"
  by (cases m) (auto simp: language_none_def)

lemma process_block_language:
  assumes "process_block (cont, c) block = Inr (cont', c')" and "124 \<notin> set block"
    and "list_all (\<lambda>n. list_all language_none (all_nodes n)) cont"
  shows "list_all (\<lambda>n. list_all language_none (all_nodes n)) cont'"
proof -
  from process_block_Inr [OF assms(1)] obtain new where
    1: "cont' = cont @ new" and 2: "list_all block_ok new" by blast
  have "list_all language_none new"
  proof (cases "str_contains (u ''::'') block")
    case False
    with assms(1) 1 show ?thesis by (auto simp: language_none_def split: sum.splits)
  next
    case True
    from split_block_total [OF True] obtain ty body where 3: "split_block block = Inr (ty, body)"
      by blast
    show ?thesis
    proof (cases "body = []")
      case True
      with assms(1) \<open>str_contains (u ''::'') block\<close> 3 1 show ?thesis by simp
    next
      case False
      with assms(1) True 3 1 have 4: "build_block c ty body = Inr (new, c')"
        by (auto split: sum.splits)
      from split_block_content [OF 3] assms(2) have "124 \<notin> set body" by auto
      from build_block_language [OF 4 this] show ?thesis .
    qed
  qed
  have "language_none m" if "n \<in> set new" and "m \<in> set (all_nodes n)" for n m
  proof -
    from 2 that have "m = n \<or> is_inner m" by (auto simp: list_all_iff block_ok_def)
    moreover from \<open>list_all language_none new\<close> that(1) have "language_none n"
      by (simp add: list_all_iff)
    ultimately show ?thesis using inner_language_none by blast
  qed
  then have "list_all (\<lambda>n. list_all language_none (all_nodes n)) new"
    by (simp add: list_all_iff)
  with 1 assms(3) show ?thesis by simp
qed

lemma process_blocks_language:
  "process_blocks (cont, c) blocks = Inr (cont', c') \<Longrightarrow> \<forall>b\<in>set blocks. 124 \<notin> set b \<Longrightarrow>
   list_all (\<lambda>n. list_all language_none (all_nodes n)) cont \<Longrightarrow>
   list_all (\<lambda>n. list_all language_none (all_nodes n)) cont'"
proof (induction blocks arbitrary: cont c)
  case Nil
  then show ?case by simp
next
  case (Cons b blocks)
  from Cons.prems(1) obtain cont1 c1 where 1: "process_block (cont, c) b = Inr (cont1, c1)"
    and 2: "process_blocks (cont1, c1) blocks = Inr (cont', c')"
    by (auto split: sum.splits)
  from process_block_language [OF 1 _ Cons.prems(3)] Cons.prems(2)
  have "list_all (\<lambda>n. list_all language_none (all_nodes n)) cont1" by simp
  from Cons.IH [OF 2 _ this] Cons.prems(2) show ?case by simp
qed

text \<open>
  Claim C9. No block contains a bar, since the blocks are the pieces of
  \<^verbatim>\<open>markup_text.split('|')\<close>, stripped; so \<^verbatim>\<open>block_content.split('|', 1)\<close> of line 163
  has one part and the branch of lines 165 and 166 is never taken. When
  \<^verbatim>\<open>parse_markup_to_json\<close> returns a document, every code block in its tree has the
  language \<^verbatim>\<open>None\<close>.
\<close>

theorem C9_code_block_language_is_none:
  "(\<forall>b\<in>set (blocks_of (str_replace 59 44 s)). 124 \<notin> set b) \<and>
   (parse_markup_to_json s = Inr (Node ''doc'' None (Some ns)) \<longrightarrow>
      list_all (\<lambda>n. list_all language_none (all_nodes n)) ns)"
proof -
  have 1: "\<forall>b\<in>set (blocks_of (str_replace 59 44 s)). 124 \<notin> set b"
    using blocks_of_no_bar by blast
  have "list_all (\<lambda>n. list_all language_none (all_nodes n)) ns"
    if "parse_markup_to_json s = Inr (Node ''doc'' None (Some ns))"
  proof -
    from that obtain c where
      "process_blocks ([], 1) (blocks_of (str_replace 59 44 s)) = Inr (ns, c)"
      by (auto simp: parse_markup_to_json_def split: sum.splits)
    from process_blocks_language [OF this 1] show ?thesis by simp
  qed
  with 1 show ?thesis by blast
qed

text \<open>
  An instance: the markup of the docstring, \<^verbatim>\<open>Code:: python | print(1)\<close>, is two blocks,
  a code block with the text \<^verbatim>\<open>python\<close> and the language \<^verbatim>\<open>None\<close>, and a paragraph.
\<close>

theorem C9_witness:
  "parse_markup_to_json (u ''Code:: python | print(1)'') =
     Inr (Node ''doc'' None
            (Some [Node ''code_block'' (Some [(''language'', VNone)])
                     (Some [Text (u ''python'') None]),
                   Node ''paragraph'' None (Some [Text (u ''print(1)'') None])])) \<and>
   list_all (\<lambda>n. list_all language_none (all_nodes n))
     [Node ''code_block'' (Some [(''language'', VNone)]) (Some [Text (u ''python'') None]),
      Node ''paragraph'' None (Some [Text (u ''print(1)'') None])]"
proof -
  have h: "parse_markup_to_json (u ''Code:: python | print(1)'') =
     Inr (Node ''doc'' None
            (Some [Node ''code_block'' (Some [(''language'', VNone)])
                     (Some [Text (u ''python'') None]),
                   Node ''paragraph'' None (Some [Text (u ''print(1)'') None])]))"
    by (simp add: block_eval inline_eval)
  from C9_code_block_language_is_none [of "u ''Code:: python | print(1)''"] h
  show ?thesis by blast
qed

section \<open>The two copies of the compiler\<close>

lemma dc_patterns_eq: "dc_patterns = patterns"
  by (simp add: dc_patterns_def patterns_def)

lemma dc_find_matches_eq: "dc_find_matches = find_matches"
  by (simp add: fun_eq_iff dc_find_matches_def find_matches_def dc_patterns_eq)

lemma dc_add_match_eq: "dc_add_match = add_match"
proof (intro ext)
  fix t :: pystr and st :: "node list \<times> nat" and m :: fmatch
  obtain elements current_pos where st: "st = (elements, current_pos)" by (cases st) auto
  obtain start stop format_type gs where m: "m = (start, stop, format_type, gs)"
    by (cases m) auto
  show "dc_add_match t st m = add_match t st m" unfolding st m by simp
qed

lemma dc_add_matches_eq: "dc_add_matches = add_matches"
proof (intro ext)
  fix t :: pystr and st :: "node list \<times> nat" and ms :: "fmatch list"
  show "dc_add_matches t st ms = add_matches t st ms"
    by (induction ms arbitrary: st) (simp_all add: dc_add_match_eq split: sum.splits)
qed

lemma dc_parse_inline_formatting_eq: "dc_parse_inline_formatting = parse_inline_formatting"
  unfolding fun_eq_iff dc_parse_inline_formatting_def parse_inline_formatting_def
    dc_find_matches_eq dc_add_matches_eq
  by simp

lemma dc_list_items_eq: "dc_list_items = list_items"
proof (intro ext)
  fix items :: "pystr list"
  show "dc_list_items items = list_items items"
    by (induction items) (simp_all add: dc_parse_inline_formatting_eq split: sum.splits)
qed

lemma dc_regex_eq: "dc_number_re = number_re" "dc_footnote_re = footnote_re"
  by (simp_all add: dc_number_re_def number_re_def dc_footnote_re_def footnote_re_def)

lemma dc_build_block_eq: "dc_build_block = build_block"
  unfolding fun_eq_iff dc_build_block_def build_block_def dc_parse_inline_formatting_eq
    dc_list_items_eq dc_regex_eq
  by (intro allI refl)

lemma dc_split_block_eq: "dc_split_block = split_block"
  unfolding fun_eq_iff dc_split_block_def split_block_def by (intro allI refl)

lemma dc_process_block_eq: "dc_process_block = process_block"
proof (intro ext)
  fix st :: "node list \<times> int" and block :: pystr
  obtain cont c where st: "st = (cont, c)" by (cases st) auto
  show "dc_process_block st block = process_block st block"
    unfolding st dc_process_block.simps process_block.simps dc_parse_inline_formatting_eq
      dc_split_block_eq dc_build_block_eq by (rule refl)
qed

lemma dc_process_blocks_eq: "dc_process_blocks = process_blocks"
proof (intro ext)
  fix st :: "node list \<times> int" and blocks :: "pystr list"
  show "dc_process_blocks st blocks = process_blocks st blocks"
    by (induction blocks arbitrary: st) (simp_all add: dc_process_block_eq split: sum.splits)
qed

lemma dc_blocks_of_eq: "dc_blocks_of = blocks_of"
  unfolding fun_eq_iff dc_blocks_of_def blocks_of_def by (intro allI refl)

text \<open>
  Claim C10. For every string, \<^verbatim>\<open>parse_markup_to_json\<close> of
  \<^verbatim>\<open>examples/python/draft_create.py\<close> returns, or raises, what \<^verbatim>\<open>parse_markup_to_json\<close>
  of \<^verbatim>\<open>src/d/drafts.py\<close> does, and so does \<^verbatim>\<open>parse_inline_formatting\<close>.
\<close>

theorem C10_the_two_copies_agree:
  "dc_parse_markup_to_json markup_text = parse_markup_to_json markup_text \<and>
   dc_parse_inline_formatting text = parse_inline_formatting text"
  unfolding dc_parse_markup_to_json_def parse_markup_to_json_def dc_process_blocks_eq
    dc_blocks_of_eq dc_parse_inline_formatting_eq
  by simp

end
